theory Spec2Isabelle
  imports Main "HOL-Library.Char_ord" "HOL-Library.List_Lexorder" "HOL-Library.Code_Target_Nat"
begin

section \<open>JavaScript strings, numbers and exceptions\<close>

text \<open>
  A label is a \<^typ>\<open>string\<close>: the sequence of its code units, each below 256. Every
  character class the program tests (\<open>\d\<close>, the dot, the letters of the markers and of the
  semantic-version grammar) lies in ASCII; any other character behaves as a non-digit.
  A thrown exception is a value of \<open>exn\<close>: the class of the JavaScript error and its message.
\<close>

datatype exn = TypeError string | Error string

definition isDigit :: "char \<Rightarrow> bool" where
  \<comment> \<open>the class \<open>\d\<close>, that is \<open>[0-9]\<close>\<close>
  "isDigit c = (48 \<le> (of_char c :: nat) \<and> (of_char c :: nat) \<le> 57)"

definition isLetterDashNumber :: "char \<Rightarrow> bool" where
  \<comment> \<open>the class \<open>[a-zA-Z0-9-]\<close>\<close>
  "isLetterDashNumber c =
     (let n = (of_char c :: nat)
      in (97 \<le> n \<and> n \<le> 122) \<or> (65 \<le> n \<and> n \<le> 90) \<or> (48 \<le> n \<and> n \<le> 57) \<or> n = 45)"

definition isSpace :: "char \<Rightarrow> bool" where
  \<comment> \<open>what \<open>String.prototype.trim\<close> strips, among the code units below 256\<close>
  "isSpace c = ((of_char c :: nat) \<in> {9, 10, 11, 12, 13, 32, 160})"

definition trim :: "string \<Rightarrow> string" where
  "trim s = rev (dropWhile isSpace (rev (dropWhile isSpace s)))"

definition startsWith :: "string \<Rightarrow> string \<Rightarrow> bool" where
  "startsWith s p = (take (length p) s = p)"

definition headIs :: "char \<Rightarrow> string \<Rightarrow> bool" where
  \<comment> \<open>the next character exists and is \<open>c\<close>\<close>
  "headIs c s = (case s of [] \<Rightarrow> False | x # xs \<Rightarrow> x = c)"

fun str_includes :: "string \<Rightarrow> string \<Rightarrow> bool" where
  "str_includes [] t = (t = [])"
| "str_includes (c # cs) t = (startsWith (c # cs) t \<or> str_includes cs t)"

fun split_on :: "char \<Rightarrow> string \<Rightarrow> string list" where
  \<comment> \<open>\<open>s.split(c)\<close> for a one-character separator\<close>
  "split_on sep [] = [[]]"
| "split_on sep (c # cs) =
     (if c = sep then [] # split_on sep cs
      else (case split_on sep cs of [] \<Rightarrow> [[c]] | w # ws \<Rightarrow> (c # w) # ws))"

fun join :: "string \<Rightarrow> string list \<Rightarrow> string" where
  \<comment> \<open>\<open>xs.join(sep)\<close>\<close>
  "join sep [] = []"
| "join sep [x] = x"
| "join sep (x # y # ys) = x @ sep @ join sep (y # ys)"

text \<open>
  A number of the program is a \<^typ>\<open>nat\<close>. The library keeps every version component at
  most \<open>2^53 - 1\<close>, so the doubles of JavaScript hold them, and their successors, exactly.
  \<open>string_of_nat\<close> is the decimal text of template interpolation; \<open>nat_of_digits\<close> is
  the value of a string of digits.
\<close>

fun string_of_nat :: "nat \<Rightarrow> string" where
  "string_of_nat n =
     (if n < 10 then [char_of (48 + n)]
      else string_of_nat (n div 10) @ [char_of (48 + n mod 10)])"

declare string_of_nat.simps [simp del]

definition digit_val :: "char \<Rightarrow> nat" where
  "digit_val c = of_char c - 48"

definition nat_of_digits :: "string \<Rightarrow> nat" where
  "nat_of_digits s = foldl (\<lambda>a c. 10 * a + digit_val c) 0 s"

fun bit_length :: "nat \<Rightarrow> nat" where
  "bit_length n = (if n = 0 then 0 else Suc (bit_length (n div 2)))"

declare bit_length.simps [simp del]

definition js_number :: "nat \<Rightarrow> nat" where
  \<comment> \<open>unary \<open>+\<close> on a string of digits with value \<open>n\<close>: the nearest double, ties to even\<close>
  "js_number n =
     (if n < 2 ^ 53 then n
      else (let e = bit_length n - 53; q = n div 2 ^ e; r = n mod 2 ^ e; h = 2 ^ (e - 1)
            in (if h < r \<or> (r = h \<and> odd q) then q + 1 else q) * 2 ^ e))"

section \<open>The semver library\<close>

text \<open>
  Modelled from the spec: the npm package \<open>semver\<close>, which \<open>src/main.ts\<close> imports and
  which is not among the repository's sources. The spec fixes the precedence order (4.3),
  the increment rules (4.5) and the canonical string form (6, glossary); the strict grammar,
  the limits and the coercion pattern are those of the package (release 7): class
  \<open>SemVer\<close>, \<open>compareIdentifiers\<close>, \<open>parse\<close>, \<open>coerce\<close>, \<open>compare\<close> and the patterns
  \<open>FULL\<close> and \<open>COERCE\<close>.
\<close>

definition MAX_LENGTH :: nat where
  "MAX_LENGTH = 256"

definition MAX_SAFE_INTEGER :: nat where
  "MAX_SAFE_INTEGER = 9007199254740991"

definition MAX_SAFE_COMPONENT_LENGTH :: nat where
  "MAX_SAFE_COMPONENT_LENGTH = 16"

datatype preid = IdNum nat | IdStr string

record SemVer =
  sv_raw :: string
  major :: nat
  minor :: nat
  patch :: nat
  prerelease :: "preid list"
  build :: "string list"

datatype ReleaseType = Major | Minor | Patch

definition numericIdentifier :: "string \<Rightarrow> bool" where
  \<comment> \<open>\<open>0|[1-9]\d*\<close>\<close>
  "numericIdentifier s = (s \<noteq> [] \<and> list_all isDigit s \<and> (s = ''0'' \<or> hd s \<noteq> CHR ''0''))"

definition prereleaseIdentifier :: "string \<Rightarrow> bool" where
  \<comment> \<open>\<open>\d*[a-zA-Z-][a-zA-Z0-9-]*|0|[1-9]\d*\<close>\<close>
  "prereleaseIdentifier s =
     (s \<noteq> [] \<and> list_all isLetterDashNumber s \<and> (list_all isDigit s \<longrightarrow> numericIdentifier s))"

definition buildIdentifier :: "string \<Rightarrow> bool" where
  \<comment> \<open>\<open>[a-zA-Z0-9-]+\<close>\<close>
  "buildIdentifier s = (s \<noteq> [] \<and> list_all isLetterDashNumber s)"

text \<open>
  The pattern \<open>FULL\<close>,
  \<open>^v?(N)\.(N)\.(N)(?:-(P(?:\.P)*))?(?:\+(B(?:\.B)*))?$\<close> with \<open>N\<close> a numeric, \<open>P\<close> a
  prerelease and \<open>B\<close> a build identifier. The match is anchored at both ends and the
  grammar is unambiguous: a numeric identifier is followed by a character that is no digit,
  so it is the whole run of digits; the prerelease text cannot hold a \<open>+\<close>, so it ends at
  the first \<open>+\<close> or at the end. The result holds the groups 1 to 5.
\<close>

definition match_FULL ::
  "string \<Rightarrow> (string \<times> string \<times> string \<times> string option \<times> string option) option" where
  "match_FULL s =
     (let s1 = (if headIs CHR ''v'' s then tl s else s);
          m1 = takeWhile isDigit s1;
          r1 = dropWhile isDigit s1;
          m2 = takeWhile isDigit (tl r1);
          r2 = dropWhile isDigit (tl r1);
          m3 = takeWhile isDigit (tl r2);
          r3 = dropWhile isDigit (tl r2);
          m4 = (if headIs CHR ''-'' r3 then Some (takeWhile (\<lambda>c. c \<noteq> CHR ''+'') (tl r3)) else None);
          r4 = (if headIs CHR ''-'' r3 then dropWhile (\<lambda>c. c \<noteq> CHR ''+'') (tl r3) else r3);
          m5 = (if headIs CHR ''+'' r4 then Some (tl r4) else None)
      in if numericIdentifier m1 \<and> headIs CHR ''.'' r1
            \<and> numericIdentifier m2 \<and> headIs CHR ''.'' r2
            \<and> numericIdentifier m3
            \<and> (case m4 of None \<Rightarrow> True
                | Some p \<Rightarrow> list_all prereleaseIdentifier (split_on CHR ''.'' p))
            \<and> (r4 = [] \<or> headIs CHR ''+'' r4)
            \<and> (case m5 of None \<Rightarrow> True
                | Some b \<Rightarrow> list_all buildIdentifier (split_on CHR ''.'' b))
         then Some (m1, m2, m3, m4, m5) else None)"

definition numberify :: "string \<Rightarrow> preid" where
  \<comment> \<open>a numeric prerelease identifier below \<open>MAX_SAFE_INTEGER\<close> becomes a number\<close>
  "numberify ident =
     (if ident \<noteq> [] \<and> list_all isDigit ident \<and> nat_of_digits ident < MAX_SAFE_INTEGER
      then IdNum (nat_of_digits ident) else IdStr ident)"

text \<open>
  The constructor \<open>new SemVer(version)\<close> with no options. \<open>+m[1]\<close> is a double: it
  exceeds \<open>MAX_SAFE_INTEGER\<close> exactly when the decimal value does (rounding is monotone and
  \<open>2^53\<close> is a double), and is the decimal value otherwise.
\<close>

definition new_SemVer :: "string \<Rightarrow> exn + SemVer" where
  "new_SemVer version =
     (if MAX_LENGTH < length version
      then Inl (TypeError ''version is longer than 256 characters'')
      else case match_FULL (trim version) of
             None \<Rightarrow> Inl (TypeError (''Invalid Version: '' @ version))
           | Some (m1, m2, m3, m4, m5) \<Rightarrow>
               if MAX_SAFE_INTEGER < nat_of_digits m1 then Inl (TypeError ''Invalid major version'')
               else if MAX_SAFE_INTEGER < nat_of_digits m2 then Inl (TypeError ''Invalid minor version'')
               else if MAX_SAFE_INTEGER < nat_of_digits m3 then Inl (TypeError ''Invalid patch version'')
               else Inr \<lparr> sv_raw = version,
                          major = nat_of_digits m1,
                          minor = nat_of_digits m2,
                          patch = nat_of_digits m3,
                          prerelease = (case m4 of None \<Rightarrow> []
                                        | Some p \<Rightarrow> map numberify (split_on CHR ''.'' p)),
                          build = (case m5 of None \<Rightarrow> [] | Some b \<Rightarrow> split_on CHR ''.'' b) \<rparr>)"

definition identifier_text :: "preid \<Rightarrow> string" where
  "identifier_text i = (case i of IdNum n \<Rightarrow> string_of_nat n | IdStr s \<Rightarrow> s)"

definition format :: "SemVer \<Rightarrow> string" where
  \<comment> \<open>the field \<open>version\<close>, which the library keeps equal to \<open>format()\<close>\<close>
  "format v =
     string_of_nat (major v) @ ''.'' @ string_of_nat (minor v) @ ''.'' @ string_of_nat (patch v)
       @ (if prerelease v = [] then [] else ''-'' @ join ''.'' (map identifier_text (prerelease v)))"

definition isNumeric :: "preid \<Rightarrow> bool" where
  \<comment> \<open>\<open>/^[0-9]+$/.test(a)\<close>\<close>
  "isNumeric i = (case i of IdNum n \<Rightarrow> True | IdStr s \<Rightarrow> s \<noteq> [] \<and> list_all isDigit s)"

definition toNumber :: "preid \<Rightarrow> nat" where
  "toNumber i = (case i of IdNum n \<Rightarrow> n | IdStr s \<Rightarrow> js_number (nat_of_digits s))"

definition compareNumbers :: "nat \<Rightarrow> nat \<Rightarrow> int" where
  "compareNumbers a b = (if a = b then 0 else if a < b then - 1 else 1)"

definition compareIdentifiers :: "preid \<Rightarrow> preid \<Rightarrow> int" where
  "compareIdentifiers a b =
     (if isNumeric a \<and> isNumeric b then compareNumbers (toNumber a) (toNumber b)
      else if a = b then 0
      else if isNumeric a \<and> \<not> isNumeric b then - 1
      else if isNumeric b \<and> \<not> isNumeric a then 1
      else if identifier_text a < identifier_text b then - 1
      else 1)"

definition compareMain :: "SemVer \<Rightarrow> SemVer \<Rightarrow> int" where
  "compareMain a b =
     (if compareNumbers (major a) (major b) \<noteq> 0 then compareNumbers (major a) (major b)
      else if compareNumbers (minor a) (minor b) \<noteq> 0 then compareNumbers (minor a) (minor b)
      else compareNumbers (patch a) (patch b))"

fun comparePreLoop :: "preid list \<Rightarrow> preid list \<Rightarrow> int" where
  "comparePreLoop [] [] = 0"
| "comparePreLoop (a # as) [] = 1"
| "comparePreLoop [] (b # bs) = - 1"
| "comparePreLoop (a # as) (b # bs) =
     (if a = b then comparePreLoop as bs else compareIdentifiers a b)"

definition comparePre :: "SemVer \<Rightarrow> SemVer \<Rightarrow> int" where
  "comparePre a b =
     (if prerelease a \<noteq> [] \<and> prerelease b = [] then - 1
      else if prerelease a = [] \<and> prerelease b \<noteq> [] then 1
      else if prerelease a = [] \<and> prerelease b = [] then 0
      else comparePreLoop (prerelease a) (prerelease b))"

definition compare :: "SemVer \<Rightarrow> SemVer \<Rightarrow> int" where
  \<comment> \<open>\<open>semver.compare(a, b)\<close> on two \<open>SemVer\<close> objects: \<open>a.compare(b)\<close>\<close>
  "compare a b =
     (if format b = format a then 0
      else if compareMain a b \<noteq> 0 then compareMain a b
      else comparePre a b)"

definition inc :: "SemVer \<Rightarrow> ReleaseType \<Rightarrow> SemVer" where
  \<comment> \<open>\<open>v.inc(release)\<close> for the three release types the program passes\<close>
  "inc v release =
     (let v' = (case release of
                  Major \<Rightarrow>
                    v \<lparr> major := (if minor v \<noteq> 0 \<or> patch v \<noteq> 0 \<or> prerelease v = []
                                  then major v + 1 else major v),
                        minor := 0, patch := 0, prerelease := [] \<rparr>
                | Minor \<Rightarrow>
                    v \<lparr> minor := (if patch v \<noteq> 0 \<or> prerelease v = []
                                  then minor v + 1 else minor v),
                        patch := 0, prerelease := [] \<rparr>
                | Patch \<Rightarrow>
                    v \<lparr> patch := (if prerelease v = [] then patch v + 1 else patch v),
                        prerelease := [] \<rparr>)
      in v' \<lparr> sv_raw := format v' @ (if build v' = [] then [] else ''+'' @ join ''.'' (build v')) \<rparr>)"

text \<open>
  The pattern \<open>COERCE\<close>,
  \<open>(^|[^\d])(\d{1,16})(?:\.(\d{1,16}))?(?:\.(\d{1,16}))?(?:$|[^\d])\<close>. A group of digits
  starts at the beginning of the string or behind a character that is no digit, and is
  followed by one, so it is a whole run of digits, of length at most 16. \<open>coerce_group\<close>
  is one optional group at the head of a string; \<open>coerce_at\<close> is the pattern behind its
  first group and yields the text handed to \<open>parse\<close>; \<open>coerce_match\<close> tries the start
  of the string and then each later position, leftmost first.
\<close>

definition coerce_group :: "string \<Rightarrow> (string \<times> string) option" where
  "coerce_group s =
     (case s of
        [] \<Rightarrow> None
      | c # r \<Rightarrow>
          if c = CHR ''.'' \<and> takeWhile isDigit r \<noteq> []
             \<and> length (takeWhile isDigit r) \<le> MAX_SAFE_COMPONENT_LENGTH
          then Some (takeWhile isDigit r, dropWhile isDigit r) else None)"

definition coerce_at :: "string \<Rightarrow> string option" where
  "coerce_at s =
     (let d1 = takeWhile isDigit s
      in if d1 = [] \<or> MAX_SAFE_COMPONENT_LENGTH < length d1 then None
         else case coerce_group (dropWhile isDigit s) of
                None \<Rightarrow> Some (d1 @ ''.0.0'')
              | Some (d2, r2) \<Rightarrow>
                  (case coerce_group r2 of
                     None \<Rightarrow> Some (d1 @ ''.'' @ d2 @ ''.0'')
                   | Some (d3, r3) \<Rightarrow> Some (d1 @ ''.'' @ d2 @ ''.'' @ d3)))"

fun coerce_scan :: "string \<Rightarrow> string option" where
  "coerce_scan [] = None"
| "coerce_scan (c # cs) =
     (if isDigit c then coerce_scan cs
      else case coerce_at cs of Some m \<Rightarrow> Some m | None \<Rightarrow> coerce_scan cs)"

definition coerce_match :: "string \<Rightarrow> string option" where
  "coerce_match s = (case coerce_at s of Some m \<Rightarrow> Some m | None \<Rightarrow> coerce_scan s)"

definition parse :: "string \<Rightarrow> SemVer option" where
  \<comment> \<open>\<open>parse\<close> catches what the constructor throws\<close>
  "parse version = (case new_SemVer version of Inl e \<Rightarrow> None | Inr v \<Rightarrow> Some v)"

definition coerce :: "string \<Rightarrow> SemVer option" where
  "coerce version = (case coerce_match version of None \<Rightarrow> None | Some t \<Rightarrow> parse t)"

section \<open>src/main.ts\<close>

record Version =
  raw :: string
  semver :: SemVer

text \<open>
  \<open>raw.match(/(\d+\.\d+\.\d+)/)\<close>: the leftmost match. \<open>match_here\<close> is the pattern at
  the head of a string. The first two runs of digits must be followed by a dot, which no
  shorter run is, and the last \<open>\d+\<close> is greedy: each group is a whole run of digits.
\<close>

definition match_here :: "string \<Rightarrow> string option" where
  "match_here s =
     (let d1 = takeWhile isDigit s;
          r1 = dropWhile isDigit s;
          d2 = takeWhile isDigit (tl r1);
          r2 = dropWhile isDigit (tl r1);
          d3 = takeWhile isDigit (tl r2)
      in if d1 \<noteq> [] \<and> headIs CHR ''.'' r1 \<and> d2 \<noteq> [] \<and> headIs CHR ''.'' r2 \<and> d3 \<noteq> []
         then Some (d1 @ ''.'' @ d2 @ ''.'' @ d3) else None)"

fun versionMatch :: "string \<Rightarrow> string option" where
  "versionMatch [] = None"
| "versionMatch (c # cs) =
     (case match_here (c # cs) of Some m \<Rightarrow> Some m | None \<Rightarrow> versionMatch cs)"

text \<open>
  The extraction step in the spec's words, to compare \<open>versionMatch\<close> with: the pattern
  is one or more digits, a dot, one or more digits, a dot, one or more digits;
  \<open>matchAt r n m\<close> says that the substring \<open>m\<close> of \<open>r\<close> at offset \<open>n\<close> matches it, and
  \<open>firstMatch r m\<close> that \<open>m\<close> is the first such substring: none starts further left, and
  none that starts at the same offset is longer.
\<close>

definition isDigits :: "string \<Rightarrow> bool" where
  "isDigits s = (s \<noteq> [] \<and> list_all isDigit s)"

definition versionPattern :: "string \<Rightarrow> bool" where
  "versionPattern m =
     (\<exists>a b c. isDigits a \<and> isDigits b \<and> isDigits c \<and> m = a @ ''.'' @ b @ ''.'' @ c)"

definition matchAt :: "string \<Rightarrow> nat \<Rightarrow> string \<Rightarrow> bool" where
  "matchAt r n m = (versionPattern m \<and> (\<exists>post. drop n r = m @ post))"

definition firstMatch :: "string \<Rightarrow> string \<Rightarrow> bool" where
  "firstMatch r m =
     (\<exists>n. matchAt r n m
          \<and> (\<forall>n' m'. matchAt r n' m' \<longrightarrow> n \<le> n' \<and> (n' = n \<longrightarrow> length m' \<le> length m)))"

definition new_Version :: "string \<Rightarrow> exn + Version" where
  \<comment> \<open>the constructor of class \<open>Version\<close>\<close>
  "new_Version r =
     (case versionMatch r of
        Some m \<Rightarrow>
          (case new_SemVer m of Inl e \<Rightarrow> Inl e | Inr sv \<Rightarrow> Inr \<lparr> raw = r, semver = sv \<rparr>)
      | None \<Rightarrow>
          (case new_SemVer ''0.0.0'' of Inl e \<Rightarrow> Inl e | Inr sv \<Rightarrow> Inr \<lparr> raw = r, semver = sv \<rparr>))"

fun newVersions :: "string list \<Rightarrow> exn + Version list" where
  \<comment> \<open>\<open>res.map(data => new Version(data.name))\<close>: the first exception ends the loop\<close>
  "newVersions [] = Inr []"
| "newVersions (name # names) =
     (case new_Version name of
        Inl e \<Rightarrow> Inl e
      | Inr v \<Rightarrow> (case newVersions names of Inl e \<Rightarrow> Inl e | Inr vs \<Rightarrow> Inr (v # vs)))"

text \<open>
  \<open>Array.prototype.sort\<close> is stable. With a consistent comparison, that is a total
  preorder, the sorted array is determined: the elements in order, equal ones as they
  came. \<open>sort_by\<close> builds that array by insertion, an element going before the first one
  it does not follow. The comparison of \<open>filterAndSortVersions\<close> is consistent on the
  Versions the constructor builds, which are the ones the program sorts; this is proved in
  the last section. With an inconsistent comparison the order \<open>Array.prototype.sort\<close>
  leaves is implementation-defined, and \<open>sort_by\<close> does not stand for it.
\<close>

fun insert_by :: "('a \<Rightarrow> 'a \<Rightarrow> int) \<Rightarrow> 'a \<Rightarrow> 'a list \<Rightarrow> 'a list" where
  "insert_by cmp x [] = [x]"
| "insert_by cmp x (y # ys) = (if cmp x y \<le> 0 then x # y # ys else y # insert_by cmp x ys)"

definition sort_by :: "('a \<Rightarrow> 'a \<Rightarrow> int) \<Rightarrow> 'a list \<Rightarrow> 'a list" where
  "sort_by cmp xs = foldr (insert_by cmp) xs []"

definition filterAndSortVersions :: "Version list \<Rightarrow> string \<Rightarrow> bool \<Rightarrow> Version list" where
  "filterAndSortVersions versions prefix includePrereleases =
     (let filteredVersions =
            filter (\<lambda>version.
              let check = (coerce (raw version) \<noteq> None);
                  check = (if \<not> includePrereleases
                              \<and> (build (semver version) \<noteq> [] \<or> prerelease (semver version) \<noteq> [])
                           then False else check)
              in check \<and> startsWith (raw version) prefix) versions
      in sort_by (\<lambda>x y. compare (semver y) (semver x)) filteredVersions)"

definition bumpVersion :: "Version \<Rightarrow> ReleaseType \<Rightarrow> exn + Version" where
  "bumpVersion version incrementLevel =
     (case new_Version (sv_raw (semver version)) of
        Inl e \<Rightarrow> Inl e
      | Inr tmp \<Rightarrow> new_Version (sv_raw (inc (semver tmp) incrementLevel)))"

definition getIncrementLevelFromTitle :: "string \<Rightarrow> ReleaseType" where
  "getIncrementLevelFromTitle title =
     (if str_includes title ''(MAJOR)'' then Major
      else if str_includes title ''(MINOR)'' then Minor
      else if str_includes title ''(PATCH)'' then Patch
      else Patch)"

text \<open>
  The run. Its inputs are what the host and the network hand to it: the four action inputs
  as \<open>core.getInput\<close> returns them, the names \<open>octokit.paginate\<close> yields for the tags and
  for the releases (or the exception it rejects with), and the message of the head commit
  when the payload has one. Every name is a string: a release with no name is not modelled.
  Its effects on the host are the calls of \<open>core.setOutput\<close> and \<open>core.setFailed\<close>, in
  order; \<open>core.info\<close> only writes to the log and is left out.
\<close>

record inputs =
  token :: string
  prefix_input :: string
  source :: string
  includePrereleases_input :: string
  tag_names :: "exn + string list"
  release_names :: "exn + string list"
  head_commit_message :: "string option"

datatype event = SetOutput string string | SetFailed exn

definition getOctokitClient :: "string \<Rightarrow> exn + unit" where
  \<comment> \<open>\<open>github.getOctokit\<close> refuses an empty token\<close>
  "getOctokitClient githubToken =
     (if githubToken = [] then Inl (Error ''Parameter token or opts.auth is required'')
      else Inr ())"

definition pipeline :: "string list \<Rightarrow> string \<Rightarrow> bool \<Rightarrow> string \<Rightarrow> exn + event list" where
  \<comment> \<open>lines 46 and 57 and 128 to 141: from the retrieved names to the two outputs\<close>
  "pipeline names prefix includePrereleases title =
     (case newVersions names of
        Inl e \<Rightarrow> Inl e
      | Inr allVersions \<Rightarrow>
          (case (case filterAndSortVersions allVersions prefix includePrereleases of
                   [] \<Rightarrow> new_Version ''0.0.0''
                 | v # vs \<Rightarrow> Inr v) of
             Inl e \<Rightarrow> Inl e
           | Inr currentVersion \<Rightarrow>
               (case bumpVersion currentVersion (getIncrementLevelFromTitle title) of
                  Inl e \<Rightarrow> Inl e
                | Inr nextVersion \<Rightarrow>
                    Inr [SetOutput ''currentVersion'' (sv_raw (semver currentVersion)),
                         SetOutput ''nextVersion'' (sv_raw (semver nextVersion))])))"

definition run_try :: "inputs \<Rightarrow> exn + event list" where
  \<comment> \<open>the \<open>try\<close> block: the events it emitted, or the exception that left it\<close>
  "run_try i =
     (case getOctokitClient (token i) of
        Inl e \<Rightarrow> Inl e
      | Inr octokit \<Rightarrow>
          (case (if source i = ''tags'' then tag_names i
                 else if source i = ''releases'' then release_names i
                 else Inl (Error (source i @ '' is not a valid value for \"source\"''))) of
             Inl e \<Rightarrow> Inl e
           | Inr names \<Rightarrow>
               pipeline names (prefix_input i) (includePrereleases_input i = ''true'')
                 (case head_commit_message i of None \<Rightarrow> [] | Some m \<Rightarrow> m)))"

definition run :: "inputs \<Rightarrow> event list" where
  "run i = (case run_try i of Inl e \<Rightarrow> [SetFailed e] | Inr events \<Rightarrow> events)"

section \<open>Substring containment and the increment level\<close>

lemma startsWith_iff: "startsWith s p \<longleftrightarrow> (\<exists>post. s = p @ post)"
proof
  assume "startsWith s p"
  then have "s = p @ drop (length p) s"
    by (metis append_take_drop_id startsWith_def)
  then show "\<exists>post. s = p @ post" ..
next
  assume "\<exists>post. s = p @ post"
  then show "startsWith s p" by (auto simp: startsWith_def)
qed

lemma str_includes_iff: "str_includes s t \<longleftrightarrow> (\<exists>pre post. s = pre @ t @ post)"
proof (induction s)
  case Nil
  then show ?case by auto
next
  case (Cons c cs)
  show ?case
  proof
    assume "str_includes (c # cs) t"
    then consider "startsWith (c # cs) t" | "str_includes cs t" by auto
    then show "\<exists>pre post. c # cs = pre @ t @ post"
    proof cases
      case 1
      then obtain post where "c # cs = t @ post" by (auto simp: startsWith_iff)
      then have "c # cs = [] @ t @ post" by simp
      then show ?thesis by blast
    next
      case 2
      then obtain pre post where "cs = pre @ t @ post" using Cons.IH by auto
      then have "c # cs = (c # pre) @ t @ post" by simp
      then show ?thesis by blast
    qed
  next
    assume "\<exists>pre post. c # cs = pre @ t @ post"
    then obtain pre post where e: "c # cs = pre @ t @ post" by auto
    show "str_includes (c # cs) t"
    proof (cases pre)
      case Nil
      then have "startsWith (c # cs) t" using e by (auto simp: startsWith_iff)
      then show ?thesis by simp
    next
      case (Cons a pre')
      then have "cs = pre' @ t @ post" using e by simp
      then have "str_includes cs t" using Cons.IH by blast
      then show ?thesis by simp
    qed
  qed
qed

text \<open>
  C5: the increment resolver returns major when the text contains \<open>(MAJOR)\<close>, else
  minor when it contains \<open>(MINOR)\<close>, else patch, with or without \<open>(PATCH)\<close>.
  Containment is that of a literal substring anywhere in the text: \<open>str_includes title m\<close>
  holds exactly when \<open>title\<close> is some text, then \<open>m\<close> character for character, then
  some text. The text \<open>(MAJOR) and (PATCH)\<close> resolves to major, a text with no marker
  to patch, a marker in lower case is no marker, and a marker inside a sentence counts.
\<close>

theorem getIncrementLevelFromTitle_precedence:
  "(str_includes title m \<longleftrightarrow> (\<exists>pre post. title = pre @ m @ post))
   \<and> getIncrementLevelFromTitle title =
       (if str_includes title ''(MAJOR)'' then Major
        else if str_includes title ''(MINOR)'' then Minor
        else if str_includes title ''(PATCH)'' then Patch
        else Patch)
   \<and> getIncrementLevelFromTitle ''(MAJOR) and (PATCH)'' = Major
   \<and> (\<not> str_includes title ''(MAJOR)'' \<and> \<not> str_includes title ''(MINOR)''
        \<and> \<not> str_includes title ''(PATCH)'' \<longrightarrow> getIncrementLevelFromTitle title = Patch)
   \<and> getIncrementLevelFromTitle ''(major) release'' = Patch
   \<and> getIncrementLevelFromTitle ''feat: parser (MINOR) done'' = Minor"
proof -
  have a: "getIncrementLevelFromTitle ''(MAJOR) and (PATCH)'' = Major" by code_simp
  have b: "getIncrementLevelFromTitle ''(major) release'' = Patch" by code_simp
  have c: "getIncrementLevelFromTitle ''feat: parser (MINOR) done'' = Minor" by code_simp
  show ?thesis
    using a b c by (simp add: str_includes_iff [symmetric] getIncrementLevelFromTitle_def)
qed

theorem getIncrementLevelFromTitle_precedence_witness:
  "\<not> str_includes ''bump deps'' ''(MAJOR)'' \<and> \<not> str_includes ''bump deps'' ''(MINOR)''
   \<and> \<not> str_includes ''bump deps'' ''(PATCH)'' \<and> getIncrementLevelFromTitle ''bump deps'' = Patch"
proof -
  have h: "\<not> str_includes ''bump deps'' ''(MAJOR)'' \<and> \<not> str_includes ''bump deps'' ''(MINOR)''
        \<and> \<not> str_includes ''bump deps'' ''(PATCH)''" by code_simp
  then show ?thesis
    using getIncrementLevelFromTitle_precedence [of "''bump deps''" "''(MAJOR)''"] by blast
qed

section \<open>The source selector\<close>

lemma run_try_bad_source:
  "source i \<noteq> ''tags'' \<Longrightarrow> source i \<noteq> ''releases'' \<Longrightarrow>
   run_try i = (if token i = [] then Inl (Error ''Parameter token or opts.auth is required'')
                else Inl (Error (source i @ '' is not a valid value for \"source\"'')))"
  by (simp add: run_try_def getOctokitClient_def)

text \<open>
  C8: with a source selector that is neither \<open>tags\<close> nor \<open>releases\<close> the run ends in
  one call of \<open>core.setFailed\<close> and emits no output, neither \<open>currentVersion\<close> nor
  \<open>nextVersion\<close>; with a token, the error reported is the one that names the selector.
\<close>

theorem run_invalid_source_fails:
  "source i \<noteq> ''tags'' \<and> source i \<noteq> ''releases'' \<longrightarrow>
     (\<exists>e. run i = [SetFailed e])
     \<and> (\<forall>name v. SetOutput name v \<notin> set (run i))
     \<and> (token i \<noteq> [] \<longrightarrow>
          run i = [SetFailed (Error (source i @ '' is not a valid value for \"source\"''))])"
  by (auto simp: run_def run_try_bad_source)

theorem run_invalid_source_fails_witness:
  "run \<lparr> token = ''ghp'', prefix_input = ''v'', source = ''commits'',
          includePrereleases_input = ''false'', tag_names = Inr [''v1.0.0''],
          release_names = Inr [], head_commit_message = Some ''fix (PATCH)'' \<rparr>
     = [SetFailed (Error ''commits is not a valid value for \"source\"'')]"
  using run_invalid_source_fails [of "\<lparr> token = ''ghp'', prefix_input = ''v'', source = ''commits'',
          includePrereleases_input = ''false'', tag_names = Inr [''v1.0.0''],
          release_names = Inr [], head_commit_message = Some ''fix (PATCH)'' \<rparr>"]
  by simp

section \<open>Ranking and filtering\<close>

text \<open>
  The sort keeps the elements, leaves a list alone whose neighbours are in order, and puts
  the neighbours of its result in order when the comparison is total.
\<close>

lemma set_insert_by: "set (insert_by cmp x xs) = insert x (set xs)"
  by (induction xs) auto

lemma set_sort_by: "set (sort_by cmp xs) = set xs"
  by (induction xs) (simp_all add: sort_by_def set_insert_by)



lemma successively_insert_by:
  assumes total: "\<And>a b. \<not> cmp a b \<le> 0 \<Longrightarrow> cmp b a \<le> 0"
  shows "successively (\<lambda>a b. cmp a b \<le> 0) xs
         \<Longrightarrow> successively (\<lambda>a b. cmp a b \<le> 0) (insert_by cmp x xs)"
proof (induction xs)
  case Nil
  then show ?case by simp
next
  case (Cons y ys)
  show ?case
  proof (cases "cmp x y \<le> 0")
    case True
    then show ?thesis using Cons.prems by simp
  next
    case False
    then have yx: "cmp y x \<le> 0" by (rule total)
    have ys: "successively (\<lambda>a b. cmp a b \<le> 0) ys"
      using Cons.prems by (cases ys) simp_all
    have ih: "successively (\<lambda>a b. cmp a b \<le> 0) (insert_by cmp x ys)"
      using ys by (rule Cons.IH)
    have "successively (\<lambda>a b. cmp a b \<le> 0) (y # insert_by cmp x ys)"
    proof (cases ys)
      case Nil
      then show ?thesis using yx by simp
    next
      case (Cons z zs)
      then show ?thesis using yx ih Cons.prems by (cases "cmp x z \<le> 0") simp_all
    qed
    then show ?thesis using False by simp
  qed
qed

lemma successively_sort_by:
  assumes total: "\<And>a b. \<not> cmp a b \<le> 0 \<Longrightarrow> cmp b a \<le> 0"
  shows "successively (\<lambda>a b. cmp a b \<le> 0) (sort_by cmp xs)"
proof (induction xs)
  case Nil
  then show ?case by (simp add: sort_by_def)
next
  case (Cons x xs)
  have "sort_by cmp (x # xs) = insert_by cmp x (sort_by cmp xs)" by (simp add: sort_by_def)
  then show ?case using successively_insert_by [OF total Cons.IH] by simp
qed

text \<open>Swapping the arguments of \<open>compare\<close> negates its result.\<close>

lemma compareNumbers_flip: "compareNumbers b a = - compareNumbers a b"
  by (simp add: compareNumbers_def)

lemma compareMain_flip: "compareMain b a = - compareMain a b"
  by (simp add: compareMain_def compareNumbers_def)

lemma isNumeric_IdStr_neq:
  "\<not> isNumeric a \<Longrightarrow> \<not> isNumeric b \<Longrightarrow> a \<noteq> b \<Longrightarrow> identifier_text a \<noteq> identifier_text b"
  by (cases a; cases b) (simp_all add: isNumeric_def identifier_text_def)

lemma compareIdentifiers_flip: "compareIdentifiers b a = - compareIdentifiers a b"
proof (cases "isNumeric a \<and> isNumeric b")
  case True
  then show ?thesis by (simp add: compareIdentifiers_def compareNumbers_flip [of "toNumber a"])
next
  case False
  show ?thesis
  proof (cases "a = b")
    case True
    then show ?thesis using False by (simp add: compareIdentifiers_def)
  next
    case neq: False
    show ?thesis
    proof (cases "isNumeric a \<or> isNumeric b")
      case True
      then show ?thesis using False neq by (auto simp: compareIdentifiers_def)
    next
      case none: False
      then have "identifier_text a \<noteq> identifier_text b"
        using neq isNumeric_IdStr_neq by blast
      then have "identifier_text a < identifier_text b \<or> identifier_text b < identifier_text a"
        by auto
      then show ?thesis using none neq by (auto simp: compareIdentifiers_def)
    qed
  qed
qed

lemma comparePreLoop_flip: "comparePreLoop bs as = - comparePreLoop as bs"
proof (induction as bs rule: comparePreLoop.induct)
  case (4 a as b bs)
  then show ?case by (auto simp: compareIdentifiers_flip [of a b])
qed simp_all

lemma comparePre_flip: "comparePre b a = - comparePre a b"
  by (simp add: comparePre_def comparePreLoop_flip [of "prerelease a"])

lemma compare_flip: "compare b a = - compare a b"
proof (cases "format b = format a")
  case True
  then show ?thesis by (simp add: compare_def)
next
  case False
  then have "format a \<noteq> format b" by auto
  then show ?thesis
    using False by (simp add: compare_def compareMain_flip [of a b] comparePre_flip [of a b])
qed

lemma compare_total: "\<not> compare (semver b) (semver a) \<le> 0 \<Longrightarrow> compare (semver a) (semver b) \<le> 0"
  using compare_flip [of "semver a" "semver b"] by simp



section \<open>The extraction step\<close>

text \<open>
  \<open>match_here\<close> finds a match of the pattern at the head of a string whenever there is
  one, and its match is the longest there; so \<open>versionMatch\<close> is the first match in the
  spec's sense.
\<close>

lemma isDigit_dot: "\<not> isDigit CHR ''.''"
  by (simp add: isDigit_def)

lemma takeWhile_digits_dot:
  "list_all isDigit a \<Longrightarrow> takeWhile isDigit (a @ CHR ''.'' # rest) = a"
  by (simp add: list_all_iff isDigit_dot)

lemma dropWhile_digits_dot:
  "list_all isDigit a \<Longrightarrow> dropWhile isDigit (a @ CHR ''.'' # rest) = CHR ''.'' # rest"
  by (simp add: list_all_iff isDigit_dot)

lemma takeWhile_digits_append:
  "list_all isDigit a \<Longrightarrow> takeWhile isDigit (a @ rest) = a @ takeWhile isDigit rest"
  by (simp add: list_all_iff)

lemma dropWhile_digits_append:
  "list_all isDigit a \<Longrightarrow> dropWhile isDigit (a @ rest) = dropWhile isDigit rest"
  by (simp add: list_all_iff)

lemma headIs_iff: "headIs c s \<longleftrightarrow> (\<exists>t. s = c # t)"
  by (cases s) (auto simp: headIs_def)

lemma isDigits_takeWhile: "takeWhile isDigit s \<noteq> [] \<Longrightarrow> isDigits (takeWhile isDigit s)"
  by (auto simp: isDigits_def list_all_iff dest: set_takeWhileD)

lemma match_here_pattern:
  assumes "isDigits a" "isDigits b" "isDigits c"
  shows "match_here (a @ ''.'' @ b @ ''.'' @ c @ post)
         = Some (a @ ''.'' @ b @ ''.'' @ c @ takeWhile isDigit post)"
  using assms
  by (simp add: match_here_def Let_def isDigits_def headIs_def takeWhile_digits_dot
      dropWhile_digits_dot takeWhile_digits_append isDigit_dot)

lemma match_here_Some:
  assumes "match_here s = Some m"
  shows "versionPattern m \<and> (\<exists>post. s = m @ post)"
proof -
  let ?d1 = "takeWhile isDigit s" and ?r1 = "dropWhile isDigit s"
  let ?d2 = "takeWhile isDigit (tl ?r1)" and ?r2 = "dropWhile isDigit (tl ?r1)"
  let ?d3 = "takeWhile isDigit (tl ?r2)"
  have c: "?d1 \<noteq> [] \<and> headIs CHR ''.'' ?r1 \<and> ?d2 \<noteq> [] \<and> headIs CHR ''.'' ?r2 \<and> ?d3 \<noteq> []"
    and m: "m = ?d1 @ ''.'' @ ?d2 @ ''.'' @ ?d3"
    using assms by (auto simp: match_here_def Let_def split: if_splits)
  from c have r1: "?r1 = CHR ''.'' # tl ?r1" and r2: "?r2 = CHR ''.'' # tl ?r2"
    by (auto simp: headIs_iff)
  have "s = ?d1 @ ?r1" by simp
  also have "\<dots> = ?d1 @ CHR ''.'' # tl ?r1" using r1 by simp
  also have "tl ?r1 = ?d2 @ ?r2" by simp
  also have "?r2 = CHR ''.'' # tl ?r2" using r2 by simp
  also have "tl ?r2 = ?d3 @ dropWhile isDigit (tl ?r2)" by simp
  finally have "s = m @ dropWhile isDigit (tl ?r2)" using m by simp
  moreover have "versionPattern m"
    unfolding versionPattern_def using c m isDigits_takeWhile by blast
  ultimately show ?thesis by blast
qed

lemma match_here_extends:
  assumes "versionPattern m'" "s = m' @ post'"
  shows "\<exists>ext. match_here s = Some (m' @ ext)"
proof -
  obtain a b c where abc: "isDigits a" "isDigits b" "isDigits c" "m' = a @ ''.'' @ b @ ''.'' @ c"
    using assms(1) by (auto simp: versionPattern_def)
  have "match_here (a @ ''.'' @ b @ ''.'' @ c @ post')
         = Some (a @ ''.'' @ b @ ''.'' @ c @ takeWhile isDigit post')"
    using abc(1-3) by (rule match_here_pattern)
  then have "match_here s = Some (m' @ takeWhile isDigit post')"
    using abc(4) assms(2) by simp
  then show ?thesis by blast
qed

lemma versionPattern_nonempty: "versionPattern m \<Longrightarrow> m \<noteq> []"
  by (auto simp: versionPattern_def)

lemma matchAt_0: "matchAt r 0 m \<longleftrightarrow> versionPattern m \<and> (\<exists>post. r = m @ post)"
  by (simp add: matchAt_def)

lemma matchAt_Suc: "matchAt (c # cs) (Suc n) m \<longleftrightarrow> matchAt cs n m"
  by (simp add: matchAt_def)

lemma matchAt_Nil: "\<not> matchAt [] n m"
  by (auto simp: matchAt_def dest: versionPattern_nonempty)

lemma versionMatch_None: "versionMatch r = None \<Longrightarrow> \<not> matchAt r n m"
proof (induction r arbitrary: n)
  case Nil
  show ?case by (rule matchAt_Nil)
next
  case (Cons c cs)
  from Cons.prems have h: "match_here (c # cs) = None" and t: "versionMatch cs = None"
    by (auto split: option.splits)
  show ?case
  proof (cases n)
    case 0
    show ?thesis
    proof
      assume "matchAt (c # cs) n m"
      then obtain post where "versionPattern m" "c # cs = m @ post"
        using 0 by (auto simp: matchAt_0)
      then have "\<exists>ext. match_here (c # cs) = Some (m @ ext)" by (rule match_here_extends)
      then show False using h by simp
    qed
  next
    case (Suc k)
    then show ?thesis using Cons.IH [OF t] by (simp add: matchAt_Suc)
  qed
qed

lemma versionMatch_Some: "versionMatch r = Some m \<Longrightarrow> firstMatch r m"
proof (induction r)
  case Nil
  then show ?case by simp
next
  case (Cons c cs)
  show ?case
  proof (cases "match_here (c # cs)")
    case None
    then have t: "versionMatch cs = Some m" using Cons.prems by simp
    then have "firstMatch cs m" by (rule Cons.IH)
    then obtain n where n: "matchAt cs n m"
      and least: "\<And>n' m'. matchAt cs n' m' \<Longrightarrow> n \<le> n' \<and> (n' = n \<longrightarrow> length m' \<le> length m)"
      by (auto simp: firstMatch_def)
    have no0: "\<And>m'. \<not> matchAt (c # cs) 0 m'"
    proof
      fix m' assume "matchAt (c # cs) 0 m'"
      then obtain post where "versionPattern m'" "c # cs = m' @ post" by (auto simp: matchAt_0)
      then have "\<exists>ext. match_here (c # cs) = Some (m' @ ext)" by (rule match_here_extends)
      then show False using None by simp
    qed
    have "matchAt (c # cs) (Suc n) m" using n by (simp add: matchAt_Suc)
    moreover have "\<forall>n' m'. matchAt (c # cs) n' m'
                     \<longrightarrow> Suc n \<le> n' \<and> (n' = Suc n \<longrightarrow> length m' \<le> length m)"
    proof (intro allI impI)
      fix n' m' assume a: "matchAt (c # cs) n' m'"
      then obtain k where k: "n' = Suc k" using no0 by (cases n') auto
      then have "matchAt cs k m'" using a by (simp add: matchAt_Suc)
      then show "Suc n \<le> n' \<and> (n' = Suc n \<longrightarrow> length m' \<le> length m)"
        using least [of k m'] k by auto
    qed
    ultimately show ?thesis unfolding firstMatch_def by blast
  next
    case (Some m0)
    then have eq: "m0 = m" using Cons.prems by simp
    have here: "match_here (c # cs) = Some m" using Some eq by simp
    then have "matchAt (c # cs) 0 m" using match_here_Some by (simp add: matchAt_0)
    moreover have "\<forall>n' m'. matchAt (c # cs) n' m'
                     \<longrightarrow> 0 \<le> n' \<and> (n' = 0 \<longrightarrow> length m' \<le> length m)"
    proof (intro allI impI conjI)
      fix n' m' assume a: "matchAt (c # cs) n' m'"
      show "0 \<le> n'" by simp
      assume "n' = 0"
      then obtain post where "versionPattern m'" "c # cs = m' @ post"
        using a by (auto simp: matchAt_0)
      then have "\<exists>ext. match_here (c # cs) = Some (m' @ ext)" by (rule match_here_extends)
      then show "length m' \<le> length m" using here by auto
    qed
    ultimately show ?thesis unfolding firstMatch_def by blast
  qed
qed

lemma firstMatch_unique:
  assumes "firstMatch r m" "firstMatch r m'"
  shows "m = m'"
proof -
  obtain n where n: "matchAt r n m"
    and least: "\<And>k x. matchAt r k x \<Longrightarrow> n \<le> k \<and> (k = n \<longrightarrow> length x \<le> length m)"
    using assms(1) by (auto simp: firstMatch_def)
  obtain n' where n': "matchAt r n' m'"
    and least': "\<And>k x. matchAt r k x \<Longrightarrow> n' \<le> k \<and> (k = n' \<longrightarrow> length x \<le> length m')"
    using assms(2) by (auto simp: firstMatch_def)
  have e: "n = n'" using least [OF n'] least' [OF n] by auto
  then have l: "length m = length m'" using least [OF n'] least' [OF n] by auto
  obtain p where p: "drop n r = m @ p" using n by (auto simp: matchAt_def)
  obtain p' where p': "drop n r = m' @ p'" using n' e by (auto simp: matchAt_def)
  have "m @ p = m' @ p'" using p p' by simp
  then show ?thesis using l by simp
qed

lemma versionMatch_iff: "versionMatch r = Some m \<longleftrightarrow> firstMatch r m"
proof
  assume "versionMatch r = Some m"
  then show "firstMatch r m" by (rule versionMatch_Some)
next
  assume f: "firstMatch r m"
  then obtain n where "matchAt r n m" by (auto simp: firstMatch_def)
  then have "versionMatch r \<noteq> None" using versionMatch_None by blast
  then obtain m0 where m0: "versionMatch r = Some m0" by auto
  then have "firstMatch r m0" by (rule versionMatch_Some)
  then have "m0 = m" using f by (rule firstMatch_unique)
  then show "versionMatch r = Some m" using m0 by simp
qed

lemma versionMatch_None_iff: "versionMatch r = None \<longleftrightarrow> (\<forall>n m. \<not> matchAt r n m)"
proof
  assume "versionMatch r = None"
  then show "\<forall>n m. \<not> matchAt r n m" using versionMatch_None by blast
next
  assume a: "\<forall>n m. \<not> matchAt r n m"
  show "versionMatch r = None"
  proof (cases "versionMatch r")
    case (Some m)
    then have "firstMatch r m" by (rule versionMatch_Some)
    then show ?thesis using a by (auto simp: firstMatch_def)
  qed simp
qed

section \<open>The constructors\<close>

text \<open>
  On a text that matches the pattern, the constructor of \<open>SemVer\<close> finds no leading
  \<open>v\<close>, no white space, no prerelease and no build; it accepts the text when no number
  has a leading zero or exceeds \<open>MAX_SAFE_INTEGER\<close> and the text is not too long.
\<close>

lemma isDigit_not_space: "isDigit c \<Longrightarrow> \<not> isSpace c"
  by (auto simp: isDigit_def isSpace_def)

lemma isDigit_not_v: "isDigit c \<Longrightarrow> c \<noteq> CHR ''v''"
  by (auto simp: isDigit_def)

lemma trim_id:
  assumes "s \<noteq> []" "\<not> isSpace (hd s)" "\<not> isSpace (last s)"
  shows "trim s = s"
proof -
  have a: "dropWhile isSpace s = s" using assms(2) by (simp add: dropWhile_eq_self_iff)
  have "\<not> isSpace (hd (rev s))" using assms(1,3) by (simp add: hd_rev)
  then have b: "dropWhile isSpace (rev s) = rev s" by (simp add: dropWhile_eq_self_iff)
  show ?thesis by (simp add: trim_def a b)
qed

lemma headIs_append: "a \<noteq> [] \<Longrightarrow> headIs c (a @ rest) = (hd a = c)"
  by (cases a) (simp_all add: headIs_def)

lemma isDigits_hd: "isDigits a \<Longrightarrow> isDigit (hd a)"
  by (cases a) (simp_all add: isDigits_def)

lemma isDigits_last: "isDigits a \<Longrightarrow> isDigit (last a)"
  by (auto simp: isDigits_def list_all_iff)

lemma match_FULL_pattern:
  assumes "isDigits a" "isDigits b" "isDigits c"
  shows "match_FULL (a @ ''.'' @ b @ ''.'' @ c)
         = (if numericIdentifier a \<and> numericIdentifier b \<and> numericIdentifier c
            then Some (a, b, c, None, None) else None)"
proof -
  let ?s = "a @ CHR ''.'' # b @ CHR ''.'' # c"
  have da: "list_all isDigit a" and db: "list_all isDigit b" and dc: "list_all isDigit c"
    and ne: "a \<noteq> []"
    using assms by (simp_all add: isDigits_def)
  have "hd a \<noteq> CHR ''v''" using isDigits_hd [OF assms(1)] by (rule isDigit_not_v)
  then have v: "headIs CHR ''v'' ?s = False" using ne by (simp add: headIs_append)
  have m1: "takeWhile isDigit ?s = a" using da by (rule takeWhile_digits_dot)
  have r1: "dropWhile isDigit ?s = CHR ''.'' # b @ CHR ''.'' # c"
    using da by (rule dropWhile_digits_dot)
  have m2: "takeWhile isDigit (b @ CHR ''.'' # c) = b" using db by (rule takeWhile_digits_dot)
  have r2: "dropWhile isDigit (b @ CHR ''.'' # c) = CHR ''.'' # c"
    using db by (rule dropWhile_digits_dot)
  have m3: "takeWhile isDigit c = c" and r3: "dropWhile isDigit c = []"
    using dc by (auto simp: list_all_iff)
  have h: "headIs CHR ''.'' (CHR ''.'' # b @ CHR ''.'' # c) = True"
    "headIs CHR ''.'' (CHR ''.'' # c) = True"
    "headIs CHR ''-'' [] = False" "headIs CHR ''+'' [] = False"
    by (simp_all add: headIs_def)
  have "match_FULL ?s
        = (if numericIdentifier a \<and> numericIdentifier b \<and> numericIdentifier c
            then Some (a, b, c, None, None) else None)"
    unfolding match_FULL_def Let_def v if_False m1 r1 list.sel m2 r2 m3 r3 h
    by simp
  then show ?thesis by simp
qed

lemma trim_pattern:
  assumes "isDigits a" "isDigits c"
  shows "trim (a @ ''.'' @ b @ ''.'' @ c) = a @ ''.'' @ b @ ''.'' @ c"
proof (rule trim_id)
  show "a @ ''.'' @ b @ ''.'' @ c \<noteq> []" by simp
  have "hd (a @ ''.'' @ b @ ''.'' @ c) = hd a" using assms(1) by (simp add: isDigits_def)
  then show "\<not> isSpace (hd (a @ ''.'' @ b @ ''.'' @ c))"
    using isDigits_hd [OF assms(1)] isDigit_not_space by simp
  have "last (a @ ''.'' @ b @ ''.'' @ c) = last c" using assms(2) by (simp add: isDigits_def)
  then show "\<not> isSpace (last (a @ ''.'' @ b @ ''.'' @ c))"
    using isDigits_last [OF assms(2)] isDigit_not_space by simp
qed

lemma new_SemVer_pattern:
  assumes "isDigits a" "isDigits b" "isDigits c"
  shows "new_SemVer (a @ ''.'' @ b @ ''.'' @ c)
         = (if MAX_LENGTH < length (a @ ''.'' @ b @ ''.'' @ c)
            then Inl (TypeError ''version is longer than 256 characters'')
            else if \<not> (numericIdentifier a \<and> numericIdentifier b \<and> numericIdentifier c)
            then Inl (TypeError (''Invalid Version: '' @ a @ ''.'' @ b @ ''.'' @ c))
            else if MAX_SAFE_INTEGER < nat_of_digits a then Inl (TypeError ''Invalid major version'')
            else if MAX_SAFE_INTEGER < nat_of_digits b then Inl (TypeError ''Invalid minor version'')
            else if MAX_SAFE_INTEGER < nat_of_digits c then Inl (TypeError ''Invalid patch version'')
            else Inr \<lparr> sv_raw = a @ ''.'' @ b @ ''.'' @ c,
                       major = nat_of_digits a, minor = nat_of_digits b, patch = nat_of_digits c,
                       prerelease = [], build = [] \<rparr>)"
  unfolding new_SemVer_def trim_pattern [OF assms(1) assms(3)] match_FULL_pattern [OF assms]
  by simp

lemma new_SemVer_zero:
  "new_SemVer ''0.0.0'' = Inr \<lparr> sv_raw = ''0.0.0'', major = 0, minor = 0, patch = 0,
                                 prerelease = [], build = [] \<rparr>"
  by code_simp

lemma new_Version_no_match:
  "versionMatch r = None \<Longrightarrow>
   new_Version r = Inr \<lparr> raw = r, semver = \<lparr> sv_raw = ''0.0.0'', major = 0, minor = 0, patch = 0,
                                                prerelease = [], build = [] \<rparr> \<rparr>"
  by (simp add: new_Version_def new_SemVer_zero)

lemma new_Version_match:
  assumes "versionMatch r = Some (a @ ''.'' @ b @ ''.'' @ c)" "isDigits a" "isDigits b" "isDigits c"
  shows "new_Version r
         = (if MAX_LENGTH < length (a @ ''.'' @ b @ ''.'' @ c)
            then Inl (TypeError ''version is longer than 256 characters'')
            else if \<not> (numericIdentifier a \<and> numericIdentifier b \<and> numericIdentifier c)
            then Inl (TypeError (''Invalid Version: '' @ a @ ''.'' @ b @ ''.'' @ c))
            else if MAX_SAFE_INTEGER < nat_of_digits a then Inl (TypeError ''Invalid major version'')
            else if MAX_SAFE_INTEGER < nat_of_digits b then Inl (TypeError ''Invalid minor version'')
            else if MAX_SAFE_INTEGER < nat_of_digits c then Inl (TypeError ''Invalid patch version'')
            else Inr \<lparr> raw = r,
                       semver = \<lparr> sv_raw = a @ ''.'' @ b @ ''.'' @ c,
                                  major = nat_of_digits a, minor = nat_of_digits b,
                                  patch = nat_of_digits c, prerelease = [], build = [] \<rparr> \<rparr>)"
  unfolding new_Version_def assms(1) option.case new_SemVer_pattern [OF assms(2-4)]
  by simp

lemma versionMatch_pattern:
  assumes "versionMatch r = Some m"
  obtains a b c where "isDigits a" "isDigits b" "isDigits c" "m = a @ ''.'' @ b @ ''.'' @ c"
proof -
  have "firstMatch r m" using assms by (rule versionMatch_Some)
  then have "versionPattern m" by (auto simp: firstMatch_def matchAt_def)
  then show ?thesis using that by (auto simp: versionPattern_def)
qed

lemma isDigits_zero: "isDigits ''0''"
  by (simp add: isDigits_def isDigit_def)

lemma numericIdentifier_zero: "numericIdentifier ''0''"
  by (simp add: numericIdentifier_def isDigit_def)

lemma nat_of_digits_zero: "nat_of_digits ''0'' = 0"
  by (simp add: nat_of_digits_def digit_val_def)

lemma new_Version_Inr:
  assumes "new_Version r = Inr v"
  obtains a b c where
    "isDigits a" "isDigits b" "isDigits c"
    "numericIdentifier a" "numericIdentifier b" "numericIdentifier c"
    "nat_of_digits a \<le> MAX_SAFE_INTEGER" "nat_of_digits b \<le> MAX_SAFE_INTEGER"
    "nat_of_digits c \<le> MAX_SAFE_INTEGER"
    "length (a @ ''.'' @ b @ ''.'' @ c) \<le> MAX_LENGTH"
    "v = \<lparr> raw = r, semver = \<lparr> sv_raw = a @ ''.'' @ b @ ''.'' @ c,
                                 major = nat_of_digits a, minor = nat_of_digits b,
                                 patch = nat_of_digits c, prerelease = [], build = [] \<rparr> \<rparr>"
proof (cases "versionMatch r")
  case None
  have z: "''0.0.0'' = ''0'' @ ''.'' @ ''0'' @ ''.'' @ ''0''" by simp
  have "v = \<lparr> raw = r, semver = \<lparr> sv_raw = ''0.0.0'', major = 0, minor = 0, patch = 0,
                                 prerelease = [], build = [] \<rparr> \<rparr>"
    using assms new_Version_no_match [OF None] by simp
  then have "v = \<lparr> raw = r, semver = \<lparr> sv_raw = ''0'' @ ''.'' @ ''0'' @ ''.'' @ ''0'',
                                 major = nat_of_digits ''0'', minor = nat_of_digits ''0'',
                                 patch = nat_of_digits ''0'', prerelease = [], build = [] \<rparr> \<rparr>"
    by (simp only: nat_of_digits_zero z)
  moreover have "nat_of_digits ''0'' \<le> MAX_SAFE_INTEGER" by (simp add: nat_of_digits_zero)
  moreover have "length (''0'' @ ''.'' @ ''0'' @ ''.'' @ ''0'') \<le> MAX_LENGTH"
    by (simp add: MAX_LENGTH_def)
  ultimately show ?thesis
    using isDigits_zero numericIdentifier_zero by (intro that [of "''0''" "''0''" "''0''"])
next
  case (Some m)
  then obtain a b c where abc: "isDigits a" "isDigits b" "isDigits c" "m = a @ ''.'' @ b @ ''.'' @ c"
    by (rule versionMatch_pattern)
  have vm: "versionMatch r = Some (a @ ''.'' @ b @ ''.'' @ c)" using Some abc(4) by simp
  note eq = assms [unfolded new_Version_match [OF vm abc(1-3)]]
  have 1: "\<not> MAX_LENGTH < length (a @ ''.'' @ b @ ''.'' @ c)"
    using eq by (auto split: if_splits)
  have 2: "numericIdentifier a \<and> numericIdentifier b \<and> numericIdentifier c"
    using eq 1 by (auto split: if_splits)
  have 3: "\<not> MAX_SAFE_INTEGER < nat_of_digits a"
    using eq 1 2 by (auto split: if_splits)
  have 4: "\<not> MAX_SAFE_INTEGER < nat_of_digits b"
    using eq 1 2 3 by (auto split: if_splits)
  have 5: "\<not> MAX_SAFE_INTEGER < nat_of_digits c"
    using eq 1 2 3 4 by (auto split: if_splits)
  have 6: "v = \<lparr> raw = r, semver = \<lparr> sv_raw = a @ ''.'' @ b @ ''.'' @ c,
                                 major = nat_of_digits a, minor = nat_of_digits b,
                                 patch = nat_of_digits c, prerelease = [], build = [] \<rparr> \<rparr>"
    using eq 1 2 3 4 5 by simp
  show ?thesis
    using that [OF abc(1-3) _ _ _ _ _ _ _ 6] 1 2 3 4 5 by auto
qed

lemma new_Version_plain:
  "new_Version r = Inr v \<Longrightarrow> prerelease (semver v) = [] \<and> build (semver v) = []"
  by (erule new_Version_Inr) simp

lemma numericIdentifier_isDigits: "numericIdentifier a \<Longrightarrow> isDigits a"
  by (simp add: numericIdentifier_def isDigits_def)

lemma new_Version_strict:
  assumes "firstMatch r (a @ ''.'' @ b @ ''.'' @ c)"
    "numericIdentifier a" "numericIdentifier b" "numericIdentifier c"
    "nat_of_digits a \<le> MAX_SAFE_INTEGER" "nat_of_digits b \<le> MAX_SAFE_INTEGER"
    "nat_of_digits c \<le> MAX_SAFE_INTEGER"
    "length (a @ ''.'' @ b @ ''.'' @ c) \<le> MAX_LENGTH"
  shows "new_Version r
         = Inr \<lparr> raw = r,
                 semver = \<lparr> sv_raw = a @ ''.'' @ b @ ''.'' @ c,
                            major = nat_of_digits a, minor = nat_of_digits b,
                            patch = nat_of_digits c, prerelease = [], build = [] \<rparr> \<rparr>"
proof -
  have vm: "versionMatch r = Some (a @ ''.'' @ b @ ''.'' @ c)"
    using assms(1) by (simp add: versionMatch_iff)
  have d: "isDigits a" "isDigits b" "isDigits c"
    using assms(2-4) by (simp_all add: numericIdentifier_isDigits)
  show ?thesis
    unfolding new_Version_match [OF vm d] using assms(2-8) by simp
qed

text \<open>
  Every Version of a list the constructor built has an empty prerelease and an empty build,
  so the flag \<open>includePrereleases\<close> does not change what the filter keeps of such a list.
\<close>

lemma newVersions_plain:
  "newVersions names = Inr vs \<Longrightarrow> v \<in> set vs
   \<Longrightarrow> prerelease (semver v) = [] \<and> build (semver v) = []"
proof (induction names arbitrary: vs)
  case Nil
  then show ?case by simp
next
  case (Cons name names)
  from Cons.prems(1) obtain w ws where w: "new_Version name = Inr w"
    and ws: "newVersions names = Inr ws" and vs: "vs = w # ws"
    by (auto split: sum.splits)
  show ?case
  proof (cases "v = w")
    case True
    then show ?thesis using w by (simp add: new_Version_plain)
  next
    case False
    then have "v \<in> set ws" using Cons.prems(2) vs by simp
    then show ?thesis using Cons.IH [OF ws] by simp
  qed
qed

lemma filterAndSortVersions_flag:
  assumes "\<And>v. v \<in> set vs \<Longrightarrow> prerelease (semver v) = [] \<and> build (semver v) = []"
  shows "filterAndSortVersions vs p False = filterAndSortVersions vs p True"
  unfolding filterAndSortVersions_def Let_def
  by (rule arg_cong [where f = "sort_by (\<lambda>x y. compare (semver y) (semver x))"], rule filter_cong)
    (simp_all add: assms)

text \<open>
  C2, as amended: every Version the constructor returns has a semver whose prerelease and
  build are both empty, since only the first substring digits.digits.digits of the label
  reaches the constructor of \<open>SemVer\<close>. The constructor returns for every label with no
  such substring and for every label whose first such substring is a strict semantic
  version (no number with a leading zero, none above \<open>MAX_SAFE_INTEGER\<close>, at most
  \<open>MAX_LENGTH\<close> characters). So the prerelease and build branch of the filter rejects no
  Version of a list the constructor built: the filter gives the same result with the flag
  off and on.
\<close>

theorem new_Version_plain_semver:
  "(new_Version r = Inr v \<longrightarrow> prerelease (semver v) = [] \<and> build (semver v) = [])
   \<and> ((\<forall>n m. \<not> matchAt r n m) \<longrightarrow> (\<exists>v. new_Version r = Inr v))
   \<and> (firstMatch r (a @ ''.'' @ b @ ''.'' @ c)
        \<and> numericIdentifier a \<and> numericIdentifier b \<and> numericIdentifier c
        \<and> nat_of_digits a \<le> MAX_SAFE_INTEGER \<and> nat_of_digits b \<le> MAX_SAFE_INTEGER
        \<and> nat_of_digits c \<le> MAX_SAFE_INTEGER
        \<and> length (a @ ''.'' @ b @ ''.'' @ c) \<le> MAX_LENGTH
       \<longrightarrow> (\<exists>v. new_Version r = Inr v))
   \<and> (newVersions names = Inr vs
       \<longrightarrow> filterAndSortVersions vs prefix False = filterAndSortVersions vs prefix True)"
proof (intro conjI impI)
  assume "new_Version r = Inr v"
  then show "prerelease (semver v) = []" "build (semver v) = []"
    by (simp_all add: new_Version_plain)
next
  assume "\<forall>n m. \<not> matchAt r n m"
  then have "versionMatch r = None" by (simp add: versionMatch_None_iff)
  then show "\<exists>v. new_Version r = Inr v" by (simp add: new_Version_no_match)
next
  assume "firstMatch r (a @ ''.'' @ b @ ''.'' @ c)
        \<and> numericIdentifier a \<and> numericIdentifier b \<and> numericIdentifier c
        \<and> nat_of_digits a \<le> MAX_SAFE_INTEGER \<and> nat_of_digits b \<le> MAX_SAFE_INTEGER
        \<and> nat_of_digits c \<le> MAX_SAFE_INTEGER
        \<and> length (a @ ''.'' @ b @ ''.'' @ c) \<le> MAX_LENGTH"
  then show "\<exists>v. new_Version r = Inr v" using new_Version_strict by blast
next
  assume "newVersions names = Inr vs"
  then show "filterAndSortVersions vs prefix False = filterAndSortVersions vs prefix True"
    using newVersions_plain by (intro filterAndSortVersions_flag) blast
qed

theorem new_Version_plain_semver_witness:
  "new_Version ''v2.0.0-beta+build.7''
     = Inr \<lparr> raw = ''v2.0.0-beta+build.7'',
             semver = \<lparr> sv_raw = ''2.0.0'', major = 2, minor = 0, patch = 0,
                        prerelease = [], build = [] \<rparr> \<rparr>
   \<and> prerelease (semver \<lparr> raw = ''v2.0.0-beta+build.7'',
             semver = \<lparr> sv_raw = ''2.0.0'', major = 2, minor = 0, patch = 0,
                        prerelease = [], build = [] \<rparr> \<rparr>) = []
   \<and> newVersions [''v1.1.0'', ''v2.0.0-beta''] = Inr
        [\<lparr> raw = ''v1.1.0'', semver = \<lparr> sv_raw = ''1.1.0'', major = 1, minor = 1, patch = 0,
                        prerelease = [], build = [] \<rparr> \<rparr>,
         \<lparr> raw = ''v2.0.0-beta'', semver = \<lparr> sv_raw = ''2.0.0'', major = 2, minor = 0, patch = 0,
                        prerelease = [], build = [] \<rparr> \<rparr>]
   \<and> filterAndSortVersions
        [\<lparr> raw = ''v1.1.0'', semver = \<lparr> sv_raw = ''1.1.0'', major = 1, minor = 1, patch = 0,
                        prerelease = [], build = [] \<rparr> \<rparr>,
         \<lparr> raw = ''v2.0.0-beta'', semver = \<lparr> sv_raw = ''2.0.0'', major = 2, minor = 0, patch = 0,
                        prerelease = [], build = [] \<rparr> \<rparr>] ''v'' False
     = filterAndSortVersions
        [\<lparr> raw = ''v1.1.0'', semver = \<lparr> sv_raw = ''1.1.0'', major = 1, minor = 1, patch = 0,
                        prerelease = [], build = [] \<rparr> \<rparr>,
         \<lparr> raw = ''v2.0.0-beta'', semver = \<lparr> sv_raw = ''2.0.0'', major = 2, minor = 0, patch = 0,
                        prerelease = [], build = [] \<rparr> \<rparr>] ''v'' True"
proof -
  let ?v = "\<lparr> raw = ''v2.0.0-beta+build.7'',
             semver = \<lparr> sv_raw = ''2.0.0'', major = 2, minor = 0, patch = 0,
                        prerelease = [], build = [] \<rparr> \<rparr>"
  let ?vs = "[\<lparr> raw = ''v1.1.0'', semver = \<lparr> sv_raw = ''1.1.0'', major = 1, minor = 1, patch = 0,
                        prerelease = [], build = [] \<rparr> \<rparr>,
         \<lparr> raw = ''v2.0.0-beta'', semver = \<lparr> sv_raw = ''2.0.0'', major = 2, minor = 0, patch = 0,
                        prerelease = [], build = [] \<rparr> \<rparr>]"
  have h1: "new_Version ''v2.0.0-beta+build.7'' = Inr ?v" by code_simp
  have h2: "newVersions [''v1.1.0'', ''v2.0.0-beta''] = Inr ?vs" by code_simp
  note t = new_Version_plain_semver [of "''v2.0.0-beta+build.7''" ?v "''2''" "''0''" "''0''"
      "[''v1.1.0'', ''v2.0.0-beta'']" ?vs "''v''"]
  from t h1 have "prerelease (semver ?v) = []" by blast
  moreover from t h2 have "filterAndSortVersions ?vs ''v'' False = filterAndSortVersions ?vs ''v'' True"
    by blast
  ultimately show ?thesis using h1 h2 by blast
qed

text \<open>
  The claim as first stated, for every label, fails where the constructor throws: the labels
  \<open>v01.2.3-beta\<close> and \<open>v99999999999999999999.0.0-rc.1\<close> yield no semver at all.
\<close>

theorem new_Version_plain_semver_counterexample:
  "\<not> (\<exists>v. new_Version ''v01.2.3-beta'' = Inr v
          \<and> prerelease (semver v) = [] \<and> build (semver v) = [])
   \<and> \<not> (\<exists>v. new_Version ''v99999999999999999999.0.0-rc.1'' = Inr v
          \<and> prerelease (semver v) = [] \<and> build (semver v) = [])"
proof -
  have "new_Version ''v01.2.3-beta'' = Inl (TypeError ''Invalid Version: 01.2.3'')"
    by code_simp
  moreover have "new_Version ''v99999999999999999999.0.0-rc.1''
                 = Inl (TypeError ''Invalid major version'')"
    by code_simp
  ultimately show ?thesis by simp
qed

section \<open>The parser\<close>

text \<open>
  C4, as amended: for every raw label whose first substring digits.digits.digits is a
  strict semantic version (no number with a leading zero, none above \<open>MAX_SAFE_INTEGER\<close>,
  at most \<open>MAX_LENGTH\<close> characters), the parser uses that substring as major.minor.patch,
  whatever text stands before or behind it; if the label has no such substring, the
  semantic of the resulting Version is exactly 0.0.0 with empty prerelease and build.
  What \<open>versionMatch\<close> extracts is the first match in the spec's sense.
\<close>

theorem new_Version_extracts:
  "(firstMatch r (a @ ''.'' @ b @ ''.'' @ c)
      \<and> numericIdentifier a \<and> numericIdentifier b \<and> numericIdentifier c
      \<and> nat_of_digits a \<le> MAX_SAFE_INTEGER \<and> nat_of_digits b \<le> MAX_SAFE_INTEGER
      \<and> nat_of_digits c \<le> MAX_SAFE_INTEGER
      \<and> length (a @ ''.'' @ b @ ''.'' @ c) \<le> MAX_LENGTH
     \<longrightarrow> new_Version r
           = Inr \<lparr> raw = r,
                   semver = \<lparr> sv_raw = a @ ''.'' @ b @ ''.'' @ c,
                              major = nat_of_digits a, minor = nat_of_digits b,
                              patch = nat_of_digits c, prerelease = [], build = [] \<rparr> \<rparr>)
   \<and> ((\<forall>n m. \<not> matchAt r n m)
     \<longrightarrow> new_Version r
           = Inr \<lparr> raw = r,
                   semver = \<lparr> sv_raw = ''0.0.0'', major = 0, minor = 0, patch = 0,
                              prerelease = [], build = [] \<rparr> \<rparr>)
   \<and> (versionMatch r = Some m \<longleftrightarrow> firstMatch r m)
   \<and> (versionMatch r = None \<longleftrightarrow> (\<forall>n m. \<not> matchAt r n m))"
proof (intro conjI impI)
  assume "firstMatch r (a @ ''.'' @ b @ ''.'' @ c)
      \<and> numericIdentifier a \<and> numericIdentifier b \<and> numericIdentifier c
      \<and> nat_of_digits a \<le> MAX_SAFE_INTEGER \<and> nat_of_digits b \<le> MAX_SAFE_INTEGER
      \<and> nat_of_digits c \<le> MAX_SAFE_INTEGER
      \<and> length (a @ ''.'' @ b @ ''.'' @ c) \<le> MAX_LENGTH"
  then show "new_Version r
           = Inr \<lparr> raw = r,
                   semver = \<lparr> sv_raw = a @ ''.'' @ b @ ''.'' @ c,
                              major = nat_of_digits a, minor = nat_of_digits b,
                              patch = nat_of_digits c, prerelease = [], build = [] \<rparr> \<rparr>"
    by (intro new_Version_strict) simp_all
next
  assume "\<forall>n m. \<not> matchAt r n m"
  then have "versionMatch r = None" by (simp add: versionMatch_None_iff)
  then show "new_Version r
           = Inr \<lparr> raw = r,
                   semver = \<lparr> sv_raw = ''0.0.0'', major = 0, minor = 0, patch = 0,
                              prerelease = [], build = [] \<rparr> \<rparr>"
    by (rule new_Version_no_match)
next
  show "versionMatch r = Some m \<longleftrightarrow> firstMatch r m" by (rule versionMatch_iff)
  show "versionMatch r = None \<longleftrightarrow> (\<forall>n m. \<not> matchAt r n m)" by (rule versionMatch_None_iff)
qed

theorem new_Version_extracts_witness:
  "firstMatch ''release-v1.2.34-beta'' (''1'' @ ''.'' @ ''2'' @ ''.'' @ ''34'')
   \<and> new_Version ''release-v1.2.34-beta''
       = Inr \<lparr> raw = ''release-v1.2.34-beta'',
               semver = \<lparr> sv_raw = ''1.2.34'', major = 1, minor = 2, patch = 34,
                          prerelease = [], build = [] \<rparr> \<rparr>
   \<and> (\<forall>n m. \<not> matchAt ''nightly-7'' n m)
   \<and> new_Version ''nightly-7''
       = Inr \<lparr> raw = ''nightly-7'',
               semver = \<lparr> sv_raw = ''0.0.0'', major = 0, minor = 0, patch = 0,
                          prerelease = [], build = [] \<rparr> \<rparr>"
proof -
  have "versionMatch ''release-v1.2.34-beta'' = Some (''1'' @ ''.'' @ ''2'' @ ''.'' @ ''34'')"
    by code_simp
  then have f: "firstMatch ''release-v1.2.34-beta'' (''1'' @ ''.'' @ ''2'' @ ''.'' @ ''34'')"
    by (rule iffD1 [OF versionMatch_iff])
  have n: "numericIdentifier ''1'' \<and> numericIdentifier ''2'' \<and> numericIdentifier ''34''
      \<and> nat_of_digits ''1'' \<le> MAX_SAFE_INTEGER \<and> nat_of_digits ''2'' \<le> MAX_SAFE_INTEGER
      \<and> nat_of_digits ''34'' \<le> MAX_SAFE_INTEGER
      \<and> length (''1'' @ ''.'' @ ''2'' @ ''.'' @ ''34'') \<le> MAX_LENGTH"
    by code_simp
  have v: "nat_of_digits ''1'' = 1" "nat_of_digits ''2'' = 2" "nat_of_digits ''34'' = 34"
    by code_simp+
  have "versionMatch ''nightly-7'' = None" by code_simp
  then have z: "\<forall>n m. \<not> matchAt ''nightly-7'' n m" by (rule iffD1 [OF versionMatch_None_iff])
  from new_Version_extracts [of "''release-v1.2.34-beta''" "''1''" "''2''" "''34''"] f n
  have "new_Version ''release-v1.2.34-beta''
       = Inr \<lparr> raw = ''release-v1.2.34-beta'',
               semver = \<lparr> sv_raw = ''1'' @ ''.'' @ ''2'' @ ''.'' @ ''34'',
                          major = nat_of_digits ''1'', minor = nat_of_digits ''2'',
                          patch = nat_of_digits ''34'', prerelease = [], build = [] \<rparr> \<rparr>"
    by blast
  then have 1: "new_Version ''release-v1.2.34-beta''
       = Inr \<lparr> raw = ''release-v1.2.34-beta'',
               semver = \<lparr> sv_raw = ''1.2.34'', major = 1, minor = 2, patch = 34,
                          prerelease = [], build = [] \<rparr> \<rparr>"
    by (simp add: v)
  from new_Version_extracts [of "''nightly-7''"] z
  have 2: "new_Version ''nightly-7''
       = Inr \<lparr> raw = ''nightly-7'',
               semver = \<lparr> sv_raw = ''0.0.0'', major = 0, minor = 0, patch = 0,
                          prerelease = [], build = [] \<rparr> \<rparr>"
    by blast
  show ?thesis using f 1 z 2 by blast
qed

text \<open>
  The claim as first stated, for every label, fails on a first match that the constructor of
  \<open>SemVer\<close> refuses: a number with a leading zero, or a number above
  \<open>MAX_SAFE_INTEGER\<close>. The match is extracted and no Version results.
\<close>

theorem new_Version_extracts_counterexample:
  "versionMatch ''v1.02.3'' = Some ''1.02.3''
   \<and> new_Version ''v1.02.3'' = Inl (TypeError ''Invalid Version: 1.02.3'')
   \<and> versionMatch ''build-99999999999999999999.1.2'' = Some ''99999999999999999999.1.2''
   \<and> new_Version ''build-99999999999999999999.1.2'' = Inl (TypeError ''Invalid major version'')"
  by code_simp

text \<open>
  C9: the parser is not total. The pattern \<open>\d+\<close> admits a leading zero, which the strict
  grammar of the library refuses: on the label \<open>2024.01.15\<close> the constructor throws, and
  a run that retrieves this label among its tags ends in \<open>core.setFailed\<close> with no output.
\<close>

theorem new_Version_throws:
  "new_Version ''2024.01.15'' = Inl (TypeError ''Invalid Version: 2024.01.15'')
   \<and> run \<lparr> token = ''ghp'', prefix_input = '''', source = ''tags'',
            includePrereleases_input = ''false'',
            tag_names = Inr [''1.4.0'', ''2024.01.15''], release_names = Inr [],
            head_commit_message = Some ''fix (PATCH)'' \<rparr>
       = [SetFailed (TypeError ''Invalid Version: 2024.01.15'')]"
  by code_simp

section \<open>End to end\<close>

text \<open>
  C1: scenario A on the code. The library reads a prerelease \<open>beta\<close> in the text
  \<open>2.0.0-beta\<close>, but the label \<open>v2.0.0-beta\<close> becomes a Version whose semver is 2.0.0
  with an empty prerelease, so the filter keeps it with \<open>includePrereleases\<close> off, it
  ranks first, and the run emits currentVersion 2.0.0 and nextVersion 2.0.1, not 1.1.0 and
  1.1.1.
\<close>

theorem run_scenario_A:
  "new_SemVer ''2.0.0-beta''
     = Inr \<lparr> sv_raw = ''2.0.0-beta'', major = 2, minor = 0, patch = 0,
             prerelease = [IdStr ''beta''], build = [] \<rparr>
   \<and> new_Version ''v2.0.0-beta''
     = Inr \<lparr> raw = ''v2.0.0-beta'',
             semver = \<lparr> sv_raw = ''2.0.0'', major = 2, minor = 0, patch = 0,
                        prerelease = [], build = [] \<rparr> \<rparr>
   \<and> pipeline [''v1.0.0'', ''v1.1.0'', ''v2.0.0-beta''] ''v'' False ''fix (PATCH)''
       = Inr [SetOutput ''currentVersion'' ''2.0.0'', SetOutput ''nextVersion'' ''2.0.1'']
   \<and> run \<lparr> token = ''ghp'', prefix_input = ''v'', source = ''tags'',
            includePrereleases_input = ''false'',
            tag_names = Inr [''v1.0.0'', ''v1.1.0'', ''v2.0.0-beta''], release_names = Inr [],
            head_commit_message = Some ''fix (PATCH)'' \<rparr>
       = [SetOutput ''currentVersion'' ''2.0.0'', SetOutput ''nextVersion'' ''2.0.1'']"
  by code_simp

text \<open>
  C3: scenario B on the code. The library ranks 2.0.0-beta above 1.1.0 and below 2.0.0;
  but with \<open>includePrereleases\<close> on and the message \<open>(MAJOR) rewrite\<close> the run emits
  currentVersion 2.0.0, the prerelease \<open>beta\<close> being lost by the constructor, and
  nextVersion 3.0.0.
\<close>

theorem run_scenario_B:
  "compare \<lparr> sv_raw = ''2.0.0-beta'', major = 2, minor = 0, patch = 0,
             prerelease = [IdStr ''beta''], build = [] \<rparr>
           \<lparr> sv_raw = ''1.1.0'', major = 1, minor = 1, patch = 0, prerelease = [], build = [] \<rparr>
     = 1
   \<and> compare \<lparr> sv_raw = ''2.0.0-beta'', major = 2, minor = 0, patch = 0,
               prerelease = [IdStr ''beta''], build = [] \<rparr>
             \<lparr> sv_raw = ''2.0.0'', major = 2, minor = 0, patch = 0, prerelease = [], build = [] \<rparr>
     = - 1
   \<and> pipeline [''v1.0.0'', ''v1.1.0'', ''v2.0.0-beta''] ''v'' True ''(MAJOR) rewrite''
       = Inr [SetOutput ''currentVersion'' ''2.0.0'', SetOutput ''nextVersion'' ''3.0.0'']
   \<and> run \<lparr> token = ''ghp'', prefix_input = ''v'', source = ''tags'',
            includePrereleases_input = ''true'',
            tag_names = Inr [''v1.0.0'', ''v1.1.0'', ''v2.0.0-beta''], release_names = Inr [],
            head_commit_message = Some ''(MAJOR) rewrite'' \<rparr>
       = [SetOutput ''currentVersion'' ''2.0.0'', SetOutput ''nextVersion'' ''3.0.0'']"
  by code_simp

lemma new_Version_000:
  "new_Version ''0.0.0''
     = Inr \<lparr> raw = ''0.0.0'', semver = \<lparr> sv_raw = ''0.0.0'', major = 0, minor = 0, patch = 0,
                                         prerelease = [], build = [] \<rparr> \<rparr>"
  by code_simp

lemma bumpVersion_000:
  "bumpVersion \<lparr> raw = ''0.0.0'', semver = \<lparr> sv_raw = ''0.0.0'', major = 0, minor = 0, patch = 0,
                                         prerelease = [], build = [] \<rparr> \<rparr> Major
     = Inr \<lparr> raw = ''1.0.0'', semver = \<lparr> sv_raw = ''1.0.0'', major = 1, minor = 0, patch = 0,
                                         prerelease = [], build = [] \<rparr> \<rparr>"
  "bumpVersion \<lparr> raw = ''0.0.0'', semver = \<lparr> sv_raw = ''0.0.0'', major = 0, minor = 0, patch = 0,
                                         prerelease = [], build = [] \<rparr> \<rparr> Minor
     = Inr \<lparr> raw = ''0.1.0'', semver = \<lparr> sv_raw = ''0.1.0'', major = 0, minor = 1, patch = 0,
                                         prerelease = [], build = [] \<rparr> \<rparr>"
  "bumpVersion \<lparr> raw = ''0.0.0'', semver = \<lparr> sv_raw = ''0.0.0'', major = 0, minor = 0, patch = 0,
                                         prerelease = [], build = [] \<rparr> \<rparr> Patch
     = Inr \<lparr> raw = ''0.0.1'', semver = \<lparr> sv_raw = ''0.0.1'', major = 0, minor = 0, patch = 1,
                                         prerelease = [], build = [] \<rparr> \<rparr>"
  by code_simp+

lemma pipeline_empty:
  assumes "newVersions names = Inr vs" "filterAndSortVersions vs prefix includePrereleases = []"
  shows "pipeline names prefix includePrereleases title
         = Inr [SetOutput ''currentVersion'' ''0.0.0'',
                SetOutput ''nextVersion''
                  (case getIncrementLevelFromTitle title of
                     Major \<Rightarrow> ''1.0.0'' | Minor \<Rightarrow> ''0.1.0'' | Patch \<Rightarrow> ''0.0.1'')]"
  by (cases "getIncrementLevelFromTitle title")
    (simp_all add: pipeline_def assms new_Version_000 bumpVersion_000)

text \<open>
  C7: when the filter leaves no candidate, and so when there is no label at all, the
  pipeline does not fail: currentVersion is the baseline 0.0.0 and nextVersion is one bump
  above it, 0.0.1 when the commit message holds no marker. A run on an empty list of tags
  with no head commit emits these two outputs.
\<close>

theorem pipeline_empty_baseline:
  "(newVersions names = Inr vs \<and> filterAndSortVersions vs prefix includePrereleases = []
     \<longrightarrow> pipeline names prefix includePrereleases title
           = Inr [SetOutput ''currentVersion'' ''0.0.0'',
                  SetOutput ''nextVersion''
                    (case getIncrementLevelFromTitle title of
                       Major \<Rightarrow> ''1.0.0'' | Minor \<Rightarrow> ''0.1.0'' | Patch \<Rightarrow> ''0.0.1'')])
   \<and> (newVersions names = Inr vs \<and> filterAndSortVersions vs prefix includePrereleases = []
        \<and> \<not> str_includes title ''(MAJOR)'' \<and> \<not> str_includes title ''(MINOR)''
     \<longrightarrow> pipeline names prefix includePrereleases title
           = Inr [SetOutput ''currentVersion'' ''0.0.0'', SetOutput ''nextVersion'' ''0.0.1''])
   \<and> pipeline [] prefix includePrereleases []
       = Inr [SetOutput ''currentVersion'' ''0.0.0'', SetOutput ''nextVersion'' ''0.0.1'']
   \<and> (token i \<noteq> [] \<and> source i = ''tags'' \<and> tag_names i = Inr []
        \<and> head_commit_message i = None
     \<longrightarrow> run i = [SetOutput ''currentVersion'' ''0.0.0'', SetOutput ''nextVersion'' ''0.0.1''])"
proof -
  have e: "newVersions [] = Inr []" "filterAndSortVersions [] prefix includePrereleases = []"
    "\<And>p f. filterAndSortVersions [] p f = []"
    by (simp_all add: filterAndSortVersions_def sort_by_def)
  have l: "getIncrementLevelFromTitle [] = Patch"
    by (simp add: getIncrementLevelFromTitle_def)
  have p0: "\<And>p f. pipeline [] p f []
       = Inr [SetOutput ''currentVersion'' ''0.0.0'', SetOutput ''nextVersion'' ''0.0.1'']"
    using pipeline_empty [OF e(1) e(3), of _ _ "[]"] by (simp add: l)
  have 1: "newVersions names = Inr vs \<and> filterAndSortVersions vs prefix includePrereleases = []
     \<longrightarrow> pipeline names prefix includePrereleases title
           = Inr [SetOutput ''currentVersion'' ''0.0.0'',
                  SetOutput ''nextVersion''
                    (case getIncrementLevelFromTitle title of
                       Major \<Rightarrow> ''1.0.0'' | Minor \<Rightarrow> ''0.1.0'' | Patch \<Rightarrow> ''0.0.1'')]"
    using pipeline_empty by blast
  have 2: "newVersions names = Inr vs \<and> filterAndSortVersions vs prefix includePrereleases = []
        \<and> \<not> str_includes title ''(MAJOR)'' \<and> \<not> str_includes title ''(MINOR)''
     \<longrightarrow> pipeline names prefix includePrereleases title
           = Inr [SetOutput ''currentVersion'' ''0.0.0'', SetOutput ''nextVersion'' ''0.0.1'']"
  proof
    assume a: "newVersions names = Inr vs \<and> filterAndSortVersions vs prefix includePrereleases = []
        \<and> \<not> str_includes title ''(MAJOR)'' \<and> \<not> str_includes title ''(MINOR)''"
    then have "getIncrementLevelFromTitle title = Patch"
      by (simp add: getIncrementLevelFromTitle_def)
    then show "pipeline names prefix includePrereleases title
           = Inr [SetOutput ''currentVersion'' ''0.0.0'', SetOutput ''nextVersion'' ''0.0.1'']"
      using a pipeline_empty [of names vs prefix includePrereleases title] by simp
  qed
  have 4: "token i \<noteq> [] \<and> source i = ''tags'' \<and> tag_names i = Inr []
        \<and> head_commit_message i = None
     \<longrightarrow> run i = [SetOutput ''currentVersion'' ''0.0.0'', SetOutput ''nextVersion'' ''0.0.1'']"
    by (simp add: run_def run_try_def getOctokitClient_def p0)
  show ?thesis using 1 2 p0 4 by blast
qed

theorem pipeline_empty_baseline_witness:
  "newVersions [''latest'', ''beta-2''] = Inr
      [\<lparr> raw = ''latest'', semver = \<lparr> sv_raw = ''0.0.0'', major = 0, minor = 0, patch = 0,
                                         prerelease = [], build = [] \<rparr> \<rparr>,
       \<lparr> raw = ''beta-2'', semver = \<lparr> sv_raw = ''0.0.0'', major = 0, minor = 0, patch = 0,
                                         prerelease = [], build = [] \<rparr> \<rparr>]
   \<and> filterAndSortVersions
      [\<lparr> raw = ''latest'', semver = \<lparr> sv_raw = ''0.0.0'', major = 0, minor = 0, patch = 0,
                                         prerelease = [], build = [] \<rparr> \<rparr>,
       \<lparr> raw = ''beta-2'', semver = \<lparr> sv_raw = ''0.0.0'', major = 0, minor = 0, patch = 0,
                                         prerelease = [], build = [] \<rparr> \<rparr>] ''v'' False = []
   \<and> pipeline [''latest'', ''beta-2''] ''v'' False ''tidy up''
       = Inr [SetOutput ''currentVersion'' ''0.0.0'', SetOutput ''nextVersion'' ''0.0.1'']"
proof -
  let ?vs = "[\<lparr> raw = ''latest'', semver = \<lparr> sv_raw = ''0.0.0'', major = 0, minor = 0, patch = 0,
                                         prerelease = [], build = [] \<rparr> \<rparr>,
       \<lparr> raw = ''beta-2'', semver = \<lparr> sv_raw = ''0.0.0'', major = 0, minor = 0, patch = 0,
                                         prerelease = [], build = [] \<rparr> \<rparr>]"
  have a: "newVersions [''latest'', ''beta-2''] = Inr ?vs" by code_simp
  have b: "filterAndSortVersions ?vs ''v'' False = []" by code_simp
  have c: "\<not> str_includes ''tidy up'' ''(MAJOR)'' \<and> \<not> str_includes ''tidy up'' ''(MINOR)''"
    by code_simp
  from pipeline_empty_baseline [of "[''latest'', ''beta-2'']" ?vs "''v''" False "''tidy up''"] a b c
  have "pipeline [''latest'', ''beta-2''] ''v'' False ''tidy up''
       = Inr [SetOutput ''currentVersion'' ''0.0.0'', SetOutput ''nextVersion'' ''0.0.1'']"
    by blast
  then show ?thesis using a b by blast
qed

section \<open>The bumper\<close>

text \<open>
  The decimal text of a number is a numeric identifier of the strict grammar, and reading
  it back gives the number: the canonical text of a version goes through the pattern and
  the constructor unchanged.
\<close>

lemma isDigit_char_of: "(d::nat) < 10 \<Longrightarrow> isDigit (char_of (48 + d))"
  by (simp add: isDigit_def)

lemma digit_val_char_of: "(d::nat) < 10 \<Longrightarrow> digit_val (char_of (48 + d)) = d"
  by (simp add: digit_val_def)

lemma char_of_48: "char_of (48 :: nat) = CHR ''0''"
  by code_simp

lemma char_of_digit_zero:
  assumes "(d::nat) < 10" "char_of (48 + d) = CHR ''0''"
  shows "d = 0"
proof -
  have "digit_val (char_of (48 + d)) = digit_val CHR ''0''" using assms(2) by simp
  moreover have "digit_val CHR ''0'' = 0" by (simp add: digit_val_def)
  ultimately show "d = 0" using assms(1) by (simp add: digit_val_char_of)
qed

lemma isDigits_string_of_nat: "isDigits (string_of_nat n)"
proof (induction n rule: string_of_nat.induct)
  case (1 n)
  show ?case
  proof (cases "n < 10")
    case True
    then show ?thesis
      by (simp add: string_of_nat.simps [of n] isDigits_def isDigit_char_of)
  next
    case False
    then have "isDigits (string_of_nat (n div 10))" by (rule "1.IH")
    moreover have "isDigit (char_of (48 + n mod 10))" by (simp add: isDigit_char_of)
    ultimately show ?thesis
      using False by (simp add: string_of_nat.simps [of n] isDigits_def)
  qed
qed

lemma hd_string_of_nat: "0 < n \<Longrightarrow> hd (string_of_nat n) \<noteq> CHR ''0''"
proof (induction n rule: string_of_nat.induct)
  case (1 n)
  show ?case
  proof (cases "n < 10")
    case True
    then show ?thesis
      using "1.prems" char_of_digit_zero [of n] by (auto simp: string_of_nat.simps [of n])
  next
    case False
    then have "0 < n div 10" by simp
    then have "hd (string_of_nat (n div 10)) \<noteq> CHR ''0''" using False by (intro "1.IH")
    moreover have "string_of_nat (n div 10) \<noteq> []"
      using isDigits_string_of_nat [of "n div 10"] by (simp add: isDigits_def)
    ultimately show ?thesis using False by (simp add: string_of_nat.simps [of n])
  qed
qed

lemma string_of_nat_0: "string_of_nat 0 = ''0''"
  by (simp add: string_of_nat.simps [of 0] char_of_48)

lemma numericIdentifier_string_of_nat: "numericIdentifier (string_of_nat n)"
proof (cases "n = 0")
  case True
  then show ?thesis by (simp add: string_of_nat_0 numericIdentifier_zero)
next
  case False
  then have "hd (string_of_nat n) \<noteq> CHR ''0''" by (simp add: hd_string_of_nat)
  then show ?thesis
    using isDigits_string_of_nat [of n] by (simp add: numericIdentifier_def isDigits_def)
qed

lemma nat_of_digits_snoc: "nat_of_digits (s @ [c]) = 10 * nat_of_digits s + digit_val c"
  by (simp add: nat_of_digits_def)

lemma nat_of_digits_string_of_nat: "nat_of_digits (string_of_nat n) = n"
proof (induction n rule: string_of_nat.induct)
  case (1 n)
  show ?case
  proof (cases "n < 10")
    case True
    then show ?thesis
      by (simp add: string_of_nat.simps [of n] nat_of_digits_def digit_val_char_of)
  next
    case False
    then have "nat_of_digits (string_of_nat (n div 10)) = n div 10" by (rule "1.IH")
    then show ?thesis
      using False by (simp add: string_of_nat.simps [of n] nat_of_digits_snoc digit_val_char_of)
  qed
qed

lemma length_string_of_nat: "n < 10 ^ k \<Longrightarrow> 0 < k \<Longrightarrow> length (string_of_nat n) \<le> k"
proof (induction k arbitrary: n)
  case 0
  then show ?case by simp
next
  case (Suc k)
  show ?case
  proof (cases "n < 10")
    case True
    then show ?thesis by (simp add: string_of_nat.simps [of n])
  next
    case False
    have d: "n div 10 < 10 ^ k" using Suc.prems(1) by (simp add: less_mult_imp_div_less)
    have "0 < k" using False Suc.prems(1) by (cases k) simp_all
    with d have "length (string_of_nat (n div 10)) \<le> k" by (rule Suc.IH)
    then show ?thesis using False by (simp add: string_of_nat.simps [of n])
  qed
qed

lemma length_string_of_nat_safe:
  "n \<le> MAX_SAFE_INTEGER + 1 \<Longrightarrow> length (string_of_nat n) \<le> 16"
  by (rule length_string_of_nat) (simp_all add: MAX_SAFE_INTEGER_def)

lemma versionMatch_self:
  assumes "isDigits a" "isDigits b" "isDigits c"
  shows "versionMatch (a @ ''.'' @ b @ ''.'' @ c) = Some (a @ ''.'' @ b @ ''.'' @ c)"
proof -
  obtain x xs where x: "a @ ''.'' @ b @ ''.'' @ c = x # xs"
    using assms(1) by (cases a) (simp_all add: isDigits_def)
  have "match_here (a @ ''.'' @ b @ ''.'' @ c @ []) = Some (a @ ''.'' @ b @ ''.'' @ c @ takeWhile isDigit [])"
    using assms by (rule match_here_pattern)
  then have "match_here (x # xs) = Some (x # xs)" using x by simp
  then have "versionMatch (x # xs) = Some (x # xs)" by simp
  then show ?thesis using x by simp
qed

lemma new_Version_of_numbers:
  assumes "x \<le> MAX_SAFE_INTEGER + 1" "y \<le> MAX_SAFE_INTEGER + 1" "z \<le> MAX_SAFE_INTEGER + 1"
  shows "new_Version (string_of_nat x @ ''.'' @ string_of_nat y @ ''.'' @ string_of_nat z)
         = (if MAX_SAFE_INTEGER < x then Inl (TypeError ''Invalid major version'')
            else if MAX_SAFE_INTEGER < y then Inl (TypeError ''Invalid minor version'')
            else if MAX_SAFE_INTEGER < z then Inl (TypeError ''Invalid patch version'')
            else Inr \<lparr> raw = string_of_nat x @ ''.'' @ string_of_nat y @ ''.'' @ string_of_nat z,
                       semver = \<lparr> sv_raw = string_of_nat x @ ''.'' @ string_of_nat y @ ''.''
                                            @ string_of_nat z,
                                  major = x, minor = y, patch = z,
                                  prerelease = [], build = [] \<rparr> \<rparr>)"
proof -
  let ?t = "string_of_nat x @ ''.'' @ string_of_nat y @ ''.'' @ string_of_nat z"
  have vm: "versionMatch ?t = Some ?t"
    by (rule versionMatch_self) (rule isDigits_string_of_nat)+
  have len: "\<not> MAX_LENGTH < length ?t"
    using length_string_of_nat_safe [OF assms(1)] length_string_of_nat_safe [OF assms(2)]
      length_string_of_nat_safe [OF assms(3)]
    by (simp add: MAX_LENGTH_def)
  have ni: "numericIdentifier (string_of_nat x) \<and> numericIdentifier (string_of_nat y)
            \<and> numericIdentifier (string_of_nat z)"
    by (simp add: numericIdentifier_string_of_nat)
  show ?thesis
    unfolding new_Version_match [OF vm isDigits_string_of_nat isDigits_string_of_nat
        isDigits_string_of_nat] nat_of_digits_string_of_nat
    using len ni by simp
qed

text \<open>
  \<open>bumpVersion\<close> on a Version the constructor built: the temporary Version has the same
  semver, the increment applies in full since there is no prerelease, and the only
  exception left is the guard of \<open>MAX_SAFE_INTEGER\<close> on the incremented number.
\<close>

lemma inc_plain:
  assumes "prerelease sv = []" "build sv = []"
  shows "inc sv Major
         = \<lparr> sv_raw = string_of_nat (major sv + 1) @ ''.'' @ string_of_nat 0 @ ''.'' @ string_of_nat 0,
             major = major sv + 1, minor = 0, patch = 0, prerelease = [], build = [] \<rparr>"
    and "inc sv Minor
         = \<lparr> sv_raw = string_of_nat (major sv) @ ''.'' @ string_of_nat (minor sv + 1) @ ''.''
                        @ string_of_nat 0,
             major = major sv, minor = minor sv + 1, patch = 0, prerelease = [], build = [] \<rparr>"
    and "inc sv Patch
         = \<lparr> sv_raw = string_of_nat (major sv) @ ''.'' @ string_of_nat (minor sv) @ ''.''
                        @ string_of_nat (patch sv + 1),
             major = major sv, minor = minor sv, patch = patch sv + 1,
             prerelease = [], build = [] \<rparr>"
  using assms by (simp_all add: inc_def format_def Let_def)

lemma bumpVersion_tmp:
  assumes "new_Version r = Inr v"
  shows "new_Version (sv_raw (semver v)) = Inr \<lparr> raw = sv_raw (semver v), semver = semver v \<rparr>"
proof -
  obtain a b c where abc: "isDigits a" "isDigits b" "isDigits c"
    "numericIdentifier a" "numericIdentifier b" "numericIdentifier c"
    "nat_of_digits a \<le> MAX_SAFE_INTEGER" "nat_of_digits b \<le> MAX_SAFE_INTEGER"
    "nat_of_digits c \<le> MAX_SAFE_INTEGER"
    "length (a @ ''.'' @ b @ ''.'' @ c) \<le> MAX_LENGTH"
    and v: "v = \<lparr> raw = r, semver = \<lparr> sv_raw = a @ ''.'' @ b @ ''.'' @ c,
                                 major = nat_of_digits a, minor = nat_of_digits b,
                                 patch = nat_of_digits c, prerelease = [], build = [] \<rparr> \<rparr>"
    using assms by (rule new_Version_Inr)
  have "versionMatch (a @ ''.'' @ b @ ''.'' @ c) = Some (a @ ''.'' @ b @ ''.'' @ c)"
    using abc(1-3) by (rule versionMatch_self)
  then have "firstMatch (a @ ''.'' @ b @ ''.'' @ c) (a @ ''.'' @ b @ ''.'' @ c)"
    by (rule iffD1 [OF versionMatch_iff])
  then have "new_Version (a @ ''.'' @ b @ ''.'' @ c)
         = Inr \<lparr> raw = a @ ''.'' @ b @ ''.'' @ c,
                 semver = \<lparr> sv_raw = a @ ''.'' @ b @ ''.'' @ c,
                            major = nat_of_digits a, minor = nat_of_digits b,
                            patch = nat_of_digits c, prerelease = [], build = [] \<rparr> \<rparr>"
    using abc(4-10) by (rule new_Version_strict)
  then show ?thesis by (simp add: v)
qed

lemma new_Version_bounds:
  assumes "new_Version r = Inr v"
  shows "major (semver v) \<le> MAX_SAFE_INTEGER" "minor (semver v) \<le> MAX_SAFE_INTEGER"
    "patch (semver v) \<le> MAX_SAFE_INTEGER"
  using assms by (auto elim!: new_Version_Inr)

lemma bumpVersion_constructed:
  assumes "new_Version r = Inr v"
  shows "bumpVersion v Major
         = (if MAX_SAFE_INTEGER < major (semver v) + 1 then Inl (TypeError ''Invalid major version'')
            else Inr \<lparr> raw = string_of_nat (major (semver v) + 1) @ ''.0.0'',
                       semver = \<lparr> sv_raw = string_of_nat (major (semver v) + 1) @ ''.0.0'',
                                  major = major (semver v) + 1, minor = 0, patch = 0,
                                  prerelease = [], build = [] \<rparr> \<rparr>)"
    and "bumpVersion v Minor
         = (if MAX_SAFE_INTEGER < minor (semver v) + 1 then Inl (TypeError ''Invalid minor version'')
            else Inr \<lparr> raw = string_of_nat (major (semver v)) @ ''.''
                               @ string_of_nat (minor (semver v) + 1) @ ''.0'',
                       semver = \<lparr> sv_raw = string_of_nat (major (semver v)) @ ''.''
                                            @ string_of_nat (minor (semver v) + 1) @ ''.0'',
                                  major = major (semver v), minor = minor (semver v) + 1, patch = 0,
                                  prerelease = [], build = [] \<rparr> \<rparr>)"
    and "bumpVersion v Patch
         = (if MAX_SAFE_INTEGER < patch (semver v) + 1 then Inl (TypeError ''Invalid patch version'')
            else Inr \<lparr> raw = string_of_nat (major (semver v)) @ ''.''
                               @ string_of_nat (minor (semver v)) @ ''.''
                               @ string_of_nat (patch (semver v) + 1),
                       semver = \<lparr> sv_raw = string_of_nat (major (semver v)) @ ''.''
                                            @ string_of_nat (minor (semver v)) @ ''.''
                                            @ string_of_nat (patch (semver v) + 1),
                                  major = major (semver v), minor = minor (semver v),
                                  patch = patch (semver v) + 1,
                                  prerelease = [], build = [] \<rparr> \<rparr>)"
proof -
  note tmp = bumpVersion_tmp [OF assms]
  note pl = new_Version_plain [OF assms]
  note b = new_Version_bounds [OF assms]
  have z: "(0::nat) \<le> MAX_SAFE_INTEGER + 1" by simp
  have b1: "major (semver v) \<le> MAX_SAFE_INTEGER + 1" "minor (semver v) \<le> MAX_SAFE_INTEGER + 1"
    "patch (semver v) \<le> MAX_SAFE_INTEGER + 1"
    "major (semver v) + 1 \<le> MAX_SAFE_INTEGER + 1" "minor (semver v) + 1 \<le> MAX_SAFE_INTEGER + 1"
    "patch (semver v) + 1 \<le> MAX_SAFE_INTEGER + 1"
    using b by simp_all
  have nz: "\<not> MAX_SAFE_INTEGER < 0" by simp
  show "bumpVersion v Major
         = (if MAX_SAFE_INTEGER < major (semver v) + 1 then Inl (TypeError ''Invalid major version'')
            else Inr \<lparr> raw = string_of_nat (major (semver v) + 1) @ ''.0.0'',
                       semver = \<lparr> sv_raw = string_of_nat (major (semver v) + 1) @ ''.0.0'',
                                  major = major (semver v) + 1, minor = 0, patch = 0,
                                  prerelease = [], build = [] \<rparr> \<rparr>)"
    unfolding bumpVersion_def tmp sum.case Version.simps inc_plain(1) [OF pl [THEN conjunct1] pl [THEN conjunct2]]
      SemVer.simps new_Version_of_numbers [OF b1(4) z z]
    by (simp add: string_of_nat_0)
  show "bumpVersion v Minor
         = (if MAX_SAFE_INTEGER < minor (semver v) + 1 then Inl (TypeError ''Invalid minor version'')
            else Inr \<lparr> raw = string_of_nat (major (semver v)) @ ''.''
                               @ string_of_nat (minor (semver v) + 1) @ ''.0'',
                       semver = \<lparr> sv_raw = string_of_nat (major (semver v)) @ ''.''
                                            @ string_of_nat (minor (semver v) + 1) @ ''.0'',
                                  major = major (semver v), minor = minor (semver v) + 1, patch = 0,
                                  prerelease = [], build = [] \<rparr> \<rparr>)"
    unfolding bumpVersion_def tmp sum.case Version.simps inc_plain(2) [OF pl [THEN conjunct1] pl [THEN conjunct2]]
      SemVer.simps new_Version_of_numbers [OF b1(1) b1(5) z]
    using b(1) by (simp add: string_of_nat_0)
  show "bumpVersion v Patch
         = (if MAX_SAFE_INTEGER < patch (semver v) + 1 then Inl (TypeError ''Invalid patch version'')
            else Inr \<lparr> raw = string_of_nat (major (semver v)) @ ''.''
                               @ string_of_nat (minor (semver v)) @ ''.''
                               @ string_of_nat (patch (semver v) + 1),
                       semver = \<lparr> sv_raw = string_of_nat (major (semver v)) @ ''.''
                                            @ string_of_nat (minor (semver v)) @ ''.''
                                            @ string_of_nat (patch (semver v) + 1),
                                  major = major (semver v), minor = minor (semver v),
                                  patch = patch (semver v) + 1,
                                  prerelease = [], build = [] \<rparr> \<rparr>)"
    unfolding bumpVersion_def tmp sum.case Version.simps inc_plain(3) [OF pl [THEN conjunct1] pl [THEN conjunct2]]
      SemVer.simps new_Version_of_numbers [OF b1(1) b1(2) b1(6)]
    using b(1,2) by simp
qed

lemma bumpVersion_result:
  assumes "bumpVersion v lvl = Inr v'"
  shows "prerelease (semver v') = [] \<and> build (semver v') = []
         \<and> raw v' = format (semver v') \<and> sv_raw (semver v') = format (semver v')"
proof -
  obtain tmp where tmp: "new_Version (sv_raw (semver v)) = Inr tmp"
    and nxt: "new_Version (sv_raw (inc (semver tmp) lvl)) = Inr v'"
    using assms by (auto simp: bumpVersion_def split: sum.splits)
  have "bumpVersion tmp lvl = new_Version (sv_raw (inc (semver tmp) lvl))"
    by (simp add: bumpVersion_def bumpVersion_tmp [OF tmp])
  then have b: "bumpVersion tmp lvl = Inr v'" using nxt by simp
  show ?thesis
  proof (cases lvl)
    case Major
    then show ?thesis
      using b unfolding Major bumpVersion_constructed(1) [OF tmp]
      by (auto simp: format_def string_of_nat_0 split: if_splits)
  next
    case Minor
    then show ?thesis
      using b unfolding Minor bumpVersion_constructed(2) [OF tmp]
      by (auto simp: format_def string_of_nat_0 split: if_splits)
  next
    case Patch
    then show ?thesis
      using b unfolding Patch bumpVersion_constructed(3) [OF tmp]
      by (auto simp: format_def split: if_splits)
  qed
qed

text \<open>
  C6, as amended: for every Version the constructor returns, bumping by patch, minor or
  major returns the Version of the incremented numbers (minor and patch reset as the level
  demands) provided the incremented number does not exceed \<open>MAX_SAFE_INTEGER\<close>; every
  Version a bump returns, of any Version and level, has empty prerelease and build, and its
  raw is the canonical string form of its new semantic version, not the raw label it came
  from. On 1.2.3, read from the label \<open>v1.2.3\<close>, patch yields 1.2.4, minor 1.3.0 and
  major 2.0.0.
\<close>

theorem bumpVersion_increments:
  "(new_Version r = Inr v \<and> patch (semver v) < MAX_SAFE_INTEGER
      \<longrightarrow> (\<exists>v'. bumpVersion v Patch = Inr v' \<and> major (semver v') = major (semver v)
                \<and> minor (semver v') = minor (semver v)
                \<and> patch (semver v') = patch (semver v) + 1))
   \<and> (new_Version r = Inr v \<and> minor (semver v) < MAX_SAFE_INTEGER
      \<longrightarrow> (\<exists>v'. bumpVersion v Minor = Inr v' \<and> major (semver v') = major (semver v)
                \<and> minor (semver v') = minor (semver v) + 1 \<and> patch (semver v') = 0))
   \<and> (new_Version r = Inr v \<and> major (semver v) < MAX_SAFE_INTEGER
      \<longrightarrow> (\<exists>v'. bumpVersion v Major = Inr v' \<and> major (semver v') = major (semver v) + 1
                \<and> minor (semver v') = 0 \<and> patch (semver v') = 0))
   \<and> (bumpVersion w lvl = Inr w'
      \<longrightarrow> prerelease (semver w') = [] \<and> build (semver w') = []
          \<and> raw w' = format (semver w') \<and> sv_raw (semver w') = format (semver w'))
   \<and> new_Version ''v1.2.3''
       = Inr \<lparr> raw = ''v1.2.3'', semver = \<lparr> sv_raw = ''1.2.3'', major = 1, minor = 2, patch = 3,
                                           prerelease = [], build = [] \<rparr> \<rparr>
   \<and> bumpVersion \<lparr> raw = ''v1.2.3'', semver = \<lparr> sv_raw = ''1.2.3'', major = 1, minor = 2,
                                                  patch = 3, prerelease = [], build = [] \<rparr> \<rparr> Patch
       = Inr \<lparr> raw = ''1.2.4'', semver = \<lparr> sv_raw = ''1.2.4'', major = 1, minor = 2, patch = 4,
                                          prerelease = [], build = [] \<rparr> \<rparr>
   \<and> bumpVersion \<lparr> raw = ''v1.2.3'', semver = \<lparr> sv_raw = ''1.2.3'', major = 1, minor = 2,
                                                  patch = 3, prerelease = [], build = [] \<rparr> \<rparr> Minor
       = Inr \<lparr> raw = ''1.3.0'', semver = \<lparr> sv_raw = ''1.3.0'', major = 1, minor = 3, patch = 0,
                                          prerelease = [], build = [] \<rparr> \<rparr>
   \<and> bumpVersion \<lparr> raw = ''v1.2.3'', semver = \<lparr> sv_raw = ''1.2.3'', major = 1, minor = 2,
                                                  patch = 3, prerelease = [], build = [] \<rparr> \<rparr> Major
       = Inr \<lparr> raw = ''2.0.0'', semver = \<lparr> sv_raw = ''2.0.0'', major = 2, minor = 0, patch = 0,
                                          prerelease = [], build = [] \<rparr> \<rparr>"
proof -
  have p: "new_Version r = Inr v \<and> patch (semver v) < MAX_SAFE_INTEGER
      \<longrightarrow> (\<exists>v'. bumpVersion v Patch = Inr v' \<and> major (semver v') = major (semver v)
                \<and> minor (semver v') = minor (semver v)
                \<and> patch (semver v') = patch (semver v) + 1)"
    by (auto simp: bumpVersion_constructed(3))
  have mi: "new_Version r = Inr v \<and> minor (semver v) < MAX_SAFE_INTEGER
      \<longrightarrow> (\<exists>v'. bumpVersion v Minor = Inr v' \<and> major (semver v') = major (semver v)
                \<and> minor (semver v') = minor (semver v) + 1 \<and> patch (semver v') = 0)"
    by (auto simp: bumpVersion_constructed(2))
  have ma: "new_Version r = Inr v \<and> major (semver v) < MAX_SAFE_INTEGER
      \<longrightarrow> (\<exists>v'. bumpVersion v Major = Inr v' \<and> major (semver v') = major (semver v) + 1
                \<and> minor (semver v') = 0 \<and> patch (semver v') = 0)"
    by (auto simp: bumpVersion_constructed(1))
  have g: "bumpVersion w lvl = Inr w'
      \<longrightarrow> prerelease (semver w') = [] \<and> build (semver w') = []
          \<and> raw w' = format (semver w') \<and> sv_raw (semver w') = format (semver w')"
    using bumpVersion_result by blast
  have e0: "new_Version ''v1.2.3''
       = Inr \<lparr> raw = ''v1.2.3'', semver = \<lparr> sv_raw = ''1.2.3'', major = 1, minor = 2, patch = 3,
                                           prerelease = [], build = [] \<rparr> \<rparr>"
    by code_simp
  have e1: "bumpVersion \<lparr> raw = ''v1.2.3'', semver = \<lparr> sv_raw = ''1.2.3'', major = 1, minor = 2,
                                                  patch = 3, prerelease = [], build = [] \<rparr> \<rparr> Patch
       = Inr \<lparr> raw = ''1.2.4'', semver = \<lparr> sv_raw = ''1.2.4'', major = 1, minor = 2, patch = 4,
                                          prerelease = [], build = [] \<rparr> \<rparr>"
    by code_simp
  have e2: "bumpVersion \<lparr> raw = ''v1.2.3'', semver = \<lparr> sv_raw = ''1.2.3'', major = 1, minor = 2,
                                                  patch = 3, prerelease = [], build = [] \<rparr> \<rparr> Minor
       = Inr \<lparr> raw = ''1.3.0'', semver = \<lparr> sv_raw = ''1.3.0'', major = 1, minor = 3, patch = 0,
                                          prerelease = [], build = [] \<rparr> \<rparr>"
    by code_simp
  have e3: "bumpVersion \<lparr> raw = ''v1.2.3'', semver = \<lparr> sv_raw = ''1.2.3'', major = 1, minor = 2,
                                                  patch = 3, prerelease = [], build = [] \<rparr> \<rparr> Major
       = Inr \<lparr> raw = ''2.0.0'', semver = \<lparr> sv_raw = ''2.0.0'', major = 2, minor = 0, patch = 0,
                                          prerelease = [], build = [] \<rparr> \<rparr>"
    by code_simp
  show ?thesis using p mi ma g e0 e1 e2 e3 by blast
qed

theorem bumpVersion_increments_witness:
  "new_Version ''release-4.17.9-rc.1''
     = Inr \<lparr> raw = ''release-4.17.9-rc.1'',
             semver = \<lparr> sv_raw = ''4.17.9'', major = 4, minor = 17, patch = 9,
                        prerelease = [], build = [] \<rparr> \<rparr>
   \<and> minor (semver \<lparr> raw = ''release-4.17.9-rc.1'',
             semver = \<lparr> sv_raw = ''4.17.9'', major = 4, minor = 17, patch = 9,
                        prerelease = [], build = [] \<rparr> \<rparr>) < MAX_SAFE_INTEGER
   \<and> (\<exists>v'. bumpVersion \<lparr> raw = ''release-4.17.9-rc.1'',
             semver = \<lparr> sv_raw = ''4.17.9'', major = 4, minor = 17, patch = 9,
                        prerelease = [], build = [] \<rparr> \<rparr> Minor = Inr v'
          \<and> major (semver v') = 4 \<and> minor (semver v') = 18 \<and> patch (semver v') = 0
          \<and> prerelease (semver v') = [] \<and> build (semver v') = []
          \<and> raw v' = format (semver v'))"
proof -
  let ?v = "\<lparr> raw = ''release-4.17.9-rc.1'',
             semver = \<lparr> sv_raw = ''4.17.9'', major = 4, minor = 17, patch = 9,
                        prerelease = [], build = [] \<rparr> \<rparr>"
  have a: "new_Version ''release-4.17.9-rc.1'' = Inr ?v" by code_simp
  have b: "minor (semver ?v) < MAX_SAFE_INTEGER" by (simp add: MAX_SAFE_INTEGER_def)
  from bumpVersion_increments [of "''release-4.17.9-rc.1''" ?v] a b
  obtain v' where v': "bumpVersion ?v Minor = Inr v'" "major (semver v') = major (semver ?v)"
    "minor (semver v') = minor (semver ?v) + 1" "patch (semver v') = 0"
    by blast
  from bumpVersion_increments [of _ _ ?v Minor v'] v'(1)
  have "prerelease (semver v') = [] \<and> build (semver v') = [] \<and> raw v' = format (semver v')"
    by blast
  then have "bumpVersion ?v Minor = Inr v'
          \<and> major (semver v') = 4 \<and> minor (semver v') = 18 \<and> patch (semver v') = 0
          \<and> prerelease (semver v') = [] \<and> build (semver v') = []
          \<and> raw v' = format (semver v')"
    using v' by simp
  then show ?thesis using a b by blast
qed

text \<open>
  The claim as first stated, for every well-formed Version, fails at the largest number the
  library admits: a major bump of 9007199254740991.0.0 returns no Version, it throws.
\<close>

theorem bumpVersion_increments_counterexample:
  "new_Version ''9007199254740991.0.0''
     = Inr \<lparr> raw = ''9007199254740991.0.0'',
             semver = \<lparr> sv_raw = ''9007199254740991.0.0'', major = 9007199254740991,
                        minor = 0, patch = 0, prerelease = [], build = [] \<rparr> \<rparr>
   \<and> bumpVersion \<lparr> raw = ''9007199254740991.0.0'',
             semver = \<lparr> sv_raw = ''9007199254740991.0.0'', major = 9007199254740991,
                        minor = 0, patch = 0, prerelease = [], build = [] \<rparr> \<rparr> Major
     = Inl (TypeError ''Invalid major version'')"
  by code_simp

section \<open>Ranking of constructed Versions\<close>

text \<open>
  The sort is stable, and sorts when the comparison is transitive as well as total: among
  the elements the comparison holds equal, the result keeps the order of the input.
\<close>

lemma filter_insert_by:
  assumes "\<And>y. y \<in> set ys \<Longrightarrow> P x \<Longrightarrow> P y \<Longrightarrow> cmp x y \<le> 0"
  shows "filter P (insert_by cmp x ys) = (if P x then x # filter P ys else filter P ys)"
  using assms by (induction ys) auto

lemma sort_by_stable:
  assumes "\<And>x y. x \<in> set xs \<Longrightarrow> y \<in> set xs \<Longrightarrow> P x \<Longrightarrow> P y \<Longrightarrow> cmp x y \<le> 0"
  shows "filter P (sort_by cmp xs) = filter P xs"
  using assms
proof (induction xs)
  case Nil
  then show ?case by (simp add: sort_by_def)
next
  case (Cons x xs)
  have ih: "filter P (sort_by cmp xs) = filter P xs"
    by (rule Cons.IH) (simp add: Cons.prems)
  have s: "sort_by cmp (x # xs) = insert_by cmp x (sort_by cmp xs)" by (simp add: sort_by_def)
  have "filter P (insert_by cmp x (sort_by cmp xs))
        = (if P x then x # filter P (sort_by cmp xs) else filter P (sort_by cmp xs))"
    by (rule filter_insert_by) (simp add: set_sort_by Cons.prems)
  then show ?case by (simp add: s ih)
qed

lemma sorted_wrt_sort_by:
  assumes total: "\<And>a b. \<not> cmp a b \<le> 0 \<Longrightarrow> cmp b a \<le> 0"
    and trans: "\<And>x y z. x \<in> set xs \<Longrightarrow> y \<in> set xs \<Longrightarrow> z \<in> set xs
                 \<Longrightarrow> cmp x y \<le> 0 \<Longrightarrow> cmp y z \<le> 0 \<Longrightarrow> cmp x z \<le> 0"
  shows "sorted_wrt (\<lambda>a b. cmp a b \<le> 0) (sort_by cmp xs)"
proof -
  have "successively (\<lambda>a b. cmp a b \<le> 0) (sort_by cmp xs)"
    by (rule successively_sort_by) (rule total)
  moreover have "successively (\<lambda>a b. cmp a b \<le> 0) (sort_by cmp xs)
                 \<longleftrightarrow> sorted_wrt (\<lambda>a b. cmp a b \<le> 0) (sort_by cmp xs)"
  proof (rule successively_iff_sorted_wrt_strong)
    fix x y z
    assume "x \<in> set (sort_by cmp xs)" "y \<in> set (sort_by cmp xs)" "z \<in> set (sort_by cmp xs)"
      and c: "cmp x y \<le> 0" "cmp y z \<le> 0"
    then have "x \<in> set xs" "y \<in> set xs" "z \<in> set xs" by (simp_all only: set_sort_by)
    then show "cmp x z \<le> 0" using c by (rule trans)
  qed
  ultimately show ?thesis by simp
qed

text \<open>
  On semvers with no prerelease, and so on those of the Versions the constructor builds,
  \<open>compare\<close> is the lexicographic order of major, minor and patch: the canonical text
  determines the three numbers. It is a total preorder there, a consistent comparison for
  \<open>Array.prototype.sort\<close>.
\<close>

lemma compareMain_le_iff:
  "compareMain a b \<le> 0 \<longleftrightarrow>
     major a < major b
     \<or> (major a = major b \<and> (minor a < minor b \<or> (minor a = minor b \<and> patch a \<le> patch b)))"
  by (auto simp: compareMain_def compareNumbers_def)

lemma compareMain_0_iff:
  "compareMain a b = 0 \<longleftrightarrow> major a = major b \<and> minor a = minor b \<and> patch a = patch b"
  by (auto simp: compareMain_def compareNumbers_def)

lemma string_of_nat_inj: "string_of_nat x = string_of_nat y \<Longrightarrow> x = y"
  by (metis nat_of_digits_string_of_nat)

lemma numbers_text_inj:
  assumes "string_of_nat x @ ''.'' @ r = string_of_nat x' @ ''.'' @ r'"
  shows "x = x' \<and> r = r'"
proof -
  have d: "list_all isDigit (string_of_nat x)" "list_all isDigit (string_of_nat x')"
    using isDigits_string_of_nat by (simp_all add: isDigits_def)
  have "takeWhile isDigit (string_of_nat x @ CHR ''.'' # r)
        = takeWhile isDigit (string_of_nat x' @ CHR ''.'' # r')"
    using assms by simp
  then have e: "string_of_nat x = string_of_nat x'"
    by (simp only: takeWhile_digits_dot [OF d(1)] takeWhile_digits_dot [OF d(2)])
  then have "x = x'" by (rule string_of_nat_inj)
  moreover have "r = r'" using assms e by simp
  ultimately show ?thesis by simp
qed

lemma format_plain_inj:
  assumes "prerelease a = []" "prerelease b = []" "format a = format b"
  shows "major a = major b \<and> minor a = minor b \<and> patch a = patch b"
proof -
  have f: "string_of_nat (major a) @ ''.'' @ (string_of_nat (minor a) @ ''.'' @ string_of_nat (patch a))
         = string_of_nat (major b) @ ''.'' @ (string_of_nat (minor b) @ ''.'' @ string_of_nat (patch b))"
    using assms by (simp add: format_def)
  then have 1: "major a = major b"
    and r: "string_of_nat (minor a) @ ''.'' @ string_of_nat (patch a)
            = string_of_nat (minor b) @ ''.'' @ string_of_nat (patch b)"
    using numbers_text_inj by blast+
  from r have 2: "minor a = minor b" and 3: "string_of_nat (patch a) = string_of_nat (patch b)"
    using numbers_text_inj by blast+
  from 3 have "patch a = patch b" by (rule string_of_nat_inj)
  then show ?thesis using 1 2 by simp
qed

lemma compare_plain:
  assumes "prerelease a = []" "prerelease b = []"
  shows "compare a b = compareMain a b"
proof (cases "format b = format a")
  case True
  then have "compareMain a b = 0"
    using format_plain_inj [OF assms(2) assms(1)] by (simp add: compareMain_0_iff)
  then show ?thesis using True by (simp add: compare_def)
next
  case False
  then show ?thesis using assms by (simp add: compare_def comparePre_def)
qed

lemma compare_plain_trans:
  assumes "prerelease a = []" "prerelease b = []" "prerelease c = []"
    "compare a b \<le> 0" "compare b c \<le> 0"
  shows "compare a c \<le> 0"
  using assms(4,5)
  unfolding compare_plain [OF assms(1,2)] compare_plain [OF assms(2,3)]
    compare_plain [OF assms(1,3)] compareMain_le_iff
  by auto

lemma compare_plain_0_iff:
  assumes "prerelease a = []" "prerelease b = []"
  shows "compare a b = 0 \<longleftrightarrow> major a = major b \<and> minor a = minor b \<and> patch a = patch b"
  by (simp add: compare_plain [OF assms] compareMain_0_iff)

text \<open>
  So on a list the constructor built, \<open>filterAndSortVersions\<close> yields the one array a
  stable sort can yield: the kept Versions in descending order, those of equal numbers in
  the order of the input.
\<close>

lemma filterAndSortVersions_form:
  "\<exists>P. \<forall>vs. filterAndSortVersions vs prefix includePrereleases
           = sort_by (\<lambda>x y. compare (semver y) (semver x)) (filter P vs)"
  unfolding filterAndSortVersions_def Let_def by (rule exI, rule allI, rule refl)

lemma filterAndSortVersions_sorted:
  assumes "newVersions names = Inr versions"
  shows "sorted_wrt (\<lambda>x y. compare (semver y) (semver x) \<le> 0)
           (filterAndSortVersions versions prefix includePrereleases)"
proof -
  let ?cmp = "\<lambda>x y. compare (semver y) (semver x)"
  obtain P where d: "\<And>vs. filterAndSortVersions vs prefix includePrereleases
           = sort_by ?cmp (filter P vs)"
    using filterAndSortVersions_form [of prefix includePrereleases] by blast
  have pl: "\<And>v. v \<in> set (filter P versions) \<Longrightarrow> prerelease (semver v) = []"
    using newVersions_plain [OF assms] by simp
  have total: "\<And>a b. \<not> ?cmp a b \<le> 0 \<Longrightarrow> ?cmp b a \<le> 0"
    by (rule compare_total)
  have trans: "\<And>x y z. x \<in> set (filter P versions) \<Longrightarrow> y \<in> set (filter P versions)
        \<Longrightarrow> z \<in> set (filter P versions) \<Longrightarrow> ?cmp x y \<le> 0 \<Longrightarrow> ?cmp y z \<le> 0 \<Longrightarrow> ?cmp x z \<le> 0"
  proof -
    fix x y z
    assume m: "x \<in> set (filter P versions)" "y \<in> set (filter P versions)"
      "z \<in> set (filter P versions)"
      and c: "compare (semver y) (semver x) \<le> 0" "compare (semver z) (semver y) \<le> 0"
    show "compare (semver z) (semver x) \<le> 0"
      using pl [OF m(3)] pl [OF m(2)] pl [OF m(1)] c(2) c(1) by (rule compare_plain_trans)
  qed
  have "sorted_wrt (\<lambda>a b. ?cmp a b \<le> 0) (sort_by ?cmp (filter P versions))"
    using total trans by (rule sorted_wrt_sort_by)
  then show ?thesis by (simp only: d)
qed

lemma filterAndSortVersions_stable:
  assumes "newVersions names = Inr versions"
  shows "filter (\<lambda>v. major (semver v) = x \<and> minor (semver v) = y \<and> patch (semver v) = z)
           (filterAndSortVersions versions prefix includePrereleases)
         = filter (\<lambda>v. (major (semver v) = x \<and> minor (semver v) = y \<and> patch (semver v) = z)
                        \<and> v \<in> set (filterAndSortVersions versions prefix includePrereleases))
             versions"
proof -
  let ?K = "\<lambda>v. major (semver v) = x \<and> minor (semver v) = y \<and> patch (semver v) = z"
  let ?cmp = "\<lambda>x y. compare (semver y) (semver x)"
  obtain P where d: "\<And>vs. filterAndSortVersions vs prefix includePrereleases
           = sort_by ?cmp (filter P vs)"
    using filterAndSortVersions_form [of prefix includePrereleases] by blast
  have pl: "\<And>v. v \<in> set (filter P versions) \<Longrightarrow> prerelease (semver v) = []"
    using newVersions_plain [OF assms] by simp
  have eq: "\<And>a b. a \<in> set (filter P versions) \<Longrightarrow> b \<in> set (filter P versions)
             \<Longrightarrow> ?K a \<Longrightarrow> ?K b \<Longrightarrow> ?cmp a b \<le> 0"
  proof -
    fix a b
    assume m: "a \<in> set (filter P versions)" "b \<in> set (filter P versions)" and k: "?K a" "?K b"
    have "compare (semver b) (semver a) = 0"
      using k by (simp add: compare_plain_0_iff [OF pl [OF m(2)] pl [OF m(1)]])
    then show "compare (semver b) (semver a) \<le> 0" by simp
  qed
  have 1: "filter ?K (sort_by ?cmp (filter P versions)) = filter ?K (filter P versions)"
    using eq by (rule sort_by_stable)
  have 2: "filter ?K (filter P versions)
           = filter (\<lambda>v. ?K v \<and> v \<in> set (sort_by ?cmp (filter P versions))) versions"
  proof -
    have "filter ?K (filter P versions) = filter (\<lambda>v. P v \<and> ?K v) versions"
      by (simp only: filter_filter)
    also have "\<dots> = filter (\<lambda>v. ?K v \<and> v \<in> set (sort_by ?cmp (filter P versions))) versions"
      by (rule filter_cong [OF refl]) (simp add: set_sort_by conj_commute)
    finally show ?thesis .
  qed
  show ?thesis by (simp only: d 1 2)
qed



end
